theory Spec2Isabelle
  imports Complex_Main "HOL-Library.AList" "HOL-Library.Sublist"
begin

section \<open>Decoded JSON payloads\<close>

text \<open>
  The transformer of \<^verbatim>\<open>weather1.py\<close> receives whatever \<^verbatim>\<open>response.json()\<close> decoded: a
  Python object built from \<^verbatim>\<open>None\<close>, \<^verbatim>\<open>bool\<close>, \<^verbatim>\<open>int\<close>, \<^verbatim>\<open>float\<close>, \<^verbatim>\<open>str\<close>, \<^verbatim>\<open>list\<close>
  and \<^verbatim>\<open>dict\<close>. A float is kept as its exact value, or one of the three special values
  the decoder accepts. A Python string is a \<open>string\<close>, one \<open>char\<close> per code point (so code
  points below 256 only). A \<^verbatim>\<open>dict\<close> is an association list in insertion order, looked up
  with \<open>map_of\<close>; the keys of a decoded object are distinct.
\<close>

datatype pyfloat = Finite rat | PosInf | NegInf | NaN

datatype json =
    JNull
  | JBool bool
  | JInt int
  | JFloat pyfloat
  | JStr string
  | JList "json list"
  | JDict "(string \<times> json) list"

datatype pytype = TNone | TBool | TInt | TFloat | TStr | TList | TDict

fun py_type :: "json \<Rightarrow> pytype" where
  "py_type JNull = TNone"
| "py_type (JBool b) = TBool"
| "py_type (JInt n) = TInt"
| "py_type (JFloat f) = TFloat"
| "py_type (JStr s) = TStr"
| "py_type (JList xs) = TList"
| "py_type (JDict kvs) = TDict"

text \<open>Truth value of an object, as \<^verbatim>\<open>if x:\<close> tests it.\<close>

fun truthy :: "json \<Rightarrow> bool" where
  "truthy JNull = False"
| "truthy (JBool b) = b"
| "truthy (JInt n) = (n \<noteq> 0)"
| "truthy (JFloat f) = (f \<noteq> Finite 0)"
| "truthy (JStr s) = (s \<noteq> [])"
| "truthy (JList xs) = (xs \<noteq> [])"
| "truthy (JDict kvs) = (kvs \<noteq> [])"

section \<open>Exceptions and outcomes\<close>

text \<open>
  \<open>SliceError\<close> is what slicing a \<^verbatim>\<open>dict\<close> raises: a \<^verbatim>\<open>TypeError\<close> (unhashable slice)
  before Python 3.12 and a \<^verbatim>\<open>KeyError\<close> from 3.12 on. \<open>ValueError\<close> is what \<^verbatim>\<open>jsonify\<close> raises
  on a value it cannot serialise.
\<close>

datatype exn = AttributeError | TypeError | SliceError | ValueError

datatype 'a outcome = Raise exn | Return 'a

text \<open>\<^verbatim>\<open>len(x)\<close> and \<^verbatim>\<open>x[:5]\<close>.\<close>

fun py_len :: "json \<Rightarrow> exn + nat" where
  "py_len (JStr s) = Inr (length s)"
| "py_len (JList xs) = Inr (length xs)"
| "py_len (JDict kvs) = Inr (length kvs)"
| "py_len v = Inl TypeError"

fun py_slice5 :: "json \<Rightarrow> exn + json" where
  "py_slice5 (JStr s) = Inr (JStr (take 5 s))"
| "py_slice5 (JList xs) = Inr (JList (take 5 xs))"
| "py_slice5 (JDict kvs) = Inl SliceError"
| "py_slice5 v = Inl TypeError"

section \<open>The log\<close>

text \<open>
  Every \<^verbatim>\<open>logging\<close> call of the source is one entry: its level and which message it is,
  with the values the message is formatted from. The rendered text is not modelled.
\<close>

datatype level = DEBUG | INFO | WARNING | ERROR

datatype msg =
    FetchingFrom
  | FetchedSuccessfully
  | ErrorFetching
  | FailedToDecode
  | ResponseText
  | RawTypeReceived pytype
  | NotADictionary pytype
  | ReturnedAList
  | MissingDailyOrUnits
  | ContentOfData json
  | KeysInDaily "string list"
  | FoundUnits json
  | MissingTime
  | ProcessingDays nat
  | FirstFewDates json
  | VariableNotFound string
  | MismatchOrInvalid string
  | ProcessingVariable string string
  | FirstFewValues string json
  | FinishedExtraction
  | FrameCreated
  | FrameShape nat nat
  | FrameColumns "string list"
  | FrameHead
  | ErrorCreatingFrame
  | ExecutingFetchAndProcess
  | FailedToFetch

type_synonym entry = "level \<times> msg"

section \<open>Library functions the transformer calls\<close>

text \<open>
  What the source leaves to Python and pandas is a parameter of the model:
  \<^item> \<open>py_repr\<close>: how \<^verbatim>\<open>str()\<close> renders a value that is not a string (used by the f-string of
    the column name);
  \<^item> \<open>str_to_number\<close>: which strings \<^verbatim>\<open>pd.to_numeric\<close> reads as a number;
  \<^item> \<open>float_of_int\<close>: the float nearest to an integer, or \<open>None\<close> for an integer beyond the
    range of floats, where the conversion raises \<^verbatim>\<open>OverflowError\<close>;
  \<^item> \<open>float_column\<close>: whether pandas stores the numeric column made from a list as floats
    (as it does beside a \<^verbatim>\<open>None\<close> or a float) rather than as integers;
  \<^item> \<open>date_of\<close>: what \<^verbatim>\<open>pd.to_datetime\<close> makes of one entry that is not \<^verbatim>\<open>None\<close>: a timestamp
    (nanoseconds since the epoch), the missing timestamp \<^verbatim>\<open>NaT\<close>, or a parsing error. Where
    pandas settles on one date format for a whole column, \<open>date_of\<close> is the conversion
    under that format.
\<close>

datatype dateconv = Stamp int | Missing | Invalid

record library =
  py_repr :: "json \<Rightarrow> string"
  str_to_number :: "string \<Rightarrow> pyfloat option"
  float_of_int :: "int \<Rightarrow> pyfloat option"
  float_column :: "json list \<Rightarrow> bool"
  date_of :: "json \<Rightarrow> dateconv"

definition py_str :: "library \<Rightarrow> json \<Rightarrow> string" where
  "py_str lib v = (case v of JStr s \<Rightarrow> s | _ \<Rightarrow> py_repr lib v)"

section \<open>Data frames\<close>

text \<open>
  A frame is its columns in order, each a name and one cell per row. A cell is a Python
  object as the constructor stored it, a number (\<open>Number NaN\<close> is the missing-value
  marker of a numeric column), a boolean of a boolean column, a timestamp, or \<^verbatim>\<open>NaT\<close>.
\<close>

datatype cell = Obj json | Number pyfloat | Boolean bool | Timestamp int | NaT

type_synonym dataframe = "(string \<times> cell list) list"

definition nrows :: "dataframe \<Rightarrow> nat" where
  "nrows df = (case df of [] \<Rightarrow> 0 | (k, c) # _ \<Rightarrow> length c)"

text \<open>
  \<^verbatim>\<open>pd.DataFrame(d)\<close> for a dict of lists and scalars: the lists must agree in length (else
  \<^verbatim>\<open>ValueError\<close>), a scalar is repeated on every row, and scalars alone, or a dict among
  lists, are a \<^verbatim>\<open>ValueError\<close>. \<open>None\<close> is the exception.
\<close>

fun column_length :: "string \<times> json \<Rightarrow> nat option" where
  "column_length (k, JList xs) = Some (length xs)"
| "column_length (k, v) = None"

fun broadcast :: "nat \<Rightarrow> json \<Rightarrow> cell list" where
  "broadcast n (JList xs) = map Obj xs"
| "broadcast n v = replicate n (Obj v)"

definition DataFrame :: "(string \<times> json) list \<Rightarrow> dataframe option" where
  "DataFrame d =
     (let lens = List.map_filter column_length d in
      if d = [] then Some []
      else if lens = [] then None
      else if \<exists>l \<in> set lens. l \<noteq> hd lens then None
      else if \<exists>kv \<in> set d. py_type (snd kv) = TDict then None
      else Some (map (\<lambda>(k, v). (k, broadcast (hd lens) v)) d))"

text \<open>
  \<^verbatim>\<open>pd.to_numeric(column, errors='coerce')\<close> on a column of the frame. The conversion of an
  integer beyond the range of floats raises \<^verbatim>\<open>OverflowError\<close>, which \<^verbatim>\<open>errors='coerce'\<close> does not
  catch: the whole call raises (\<open>None\<close>). Otherwise every cell is converted, and what an
  integer or a boolean becomes depends on the rest of its column: a column of booleans only
  stays as it is, and elsewhere a boolean counts as 1 or 0; an integer is rounded to the
  nearest float in a column that pandas stores as floats and kept otherwise. A float is
  kept, a string is read as a number if it is one, and \<^verbatim>\<open>None\<close>, a list, a dict and any
  other string become \<open>NaN\<close>. (A column of timestamps would be viewed as its integers; the
  transformer never converts one.)
\<close>

fun overflows :: "library \<Rightarrow> cell \<Rightarrow> bool" where
  "overflows lib (Obj (JInt n)) = (float_of_int lib n = None)"
| "overflows lib c = False"

fun is_bool :: "cell \<Rightarrow> bool" where
  "is_bool (Obj (JBool b)) = True"
| "is_bool (Boolean b) = True"
| "is_bool c = False"

fun object_of :: "cell \<Rightarrow> json option" where
  "object_of (Obj v) = Some v"
| "object_of c = None"

definition stored_as_float :: "library \<Rightarrow> cell list \<Rightarrow> bool" where
  "stored_as_float lib col = float_column lib (List.map_filter object_of col)"

fun to_numeric1 :: "library \<Rightarrow> cell list \<Rightarrow> cell \<Rightarrow> cell" where
  "to_numeric1 lib col (Obj JNull) = Number NaN"
| "to_numeric1 lib col (Obj (JBool b)) =
     (if list_all is_bool col then Boolean b else Number (Finite (if b then 1 else 0)))"
| "to_numeric1 lib col (Obj (JInt n)) =
     (if stored_as_float lib col
      then (case float_of_int lib n of Some f \<Rightarrow> Number f | None \<Rightarrow> Number NaN)
      else Number (Finite (of_int n)))"
| "to_numeric1 lib col (Obj (JFloat f)) = Number f"
| "to_numeric1 lib col (Obj (JStr s)) =
     (case str_to_number lib s of Some x \<Rightarrow> Number x | None \<Rightarrow> Number NaN)"
| "to_numeric1 lib col (Obj (JList xs)) = Number NaN"
| "to_numeric1 lib col (Obj (JDict kvs)) = Number NaN"
| "to_numeric1 lib col (Number x) = Number x"
| "to_numeric1 lib col (Boolean b) =
     (if list_all is_bool col then Boolean b else Number (Finite (if b then 1 else 0)))"
| "to_numeric1 lib col (Timestamp t) = Number (Finite (of_int t))"
| "to_numeric1 lib col NaT = Number (Finite (of_int (- (2 ^ 63))))"

definition numeric_raises :: "library \<Rightarrow> cell list \<Rightarrow> bool" where
  "numeric_raises lib col = (\<exists>c \<in> set col. overflows lib c)"

definition numeric_cells :: "library \<Rightarrow> cell list \<Rightarrow> cell list" where
  "numeric_cells lib col = map (to_numeric1 lib col) col"

definition to_numeric :: "library \<Rightarrow> cell list \<Rightarrow> cell list option" where
  "to_numeric lib col = (if numeric_raises lib col then None else Some (numeric_cells lib col))"

text \<open>
  \<^verbatim>\<open>pd.to_datetime(column)\<close> with the default \<^verbatim>\<open>errors='raise'\<close>: \<^verbatim>\<open>None\<close> becomes \<^verbatim>\<open>NaT\<close>, any
  other entry is converted by the library, and one entry it cannot parse raises for the
  whole column (\<open>None\<close>). (The \<^verbatim>\<open>date\<close> column holds objects when it is converted; the other
  cases are there for totality.)
\<close>

fun to_datetime1 :: "library \<Rightarrow> cell \<Rightarrow> dateconv" where
  "to_datetime1 lib (Obj JNull) = Missing"
| "to_datetime1 lib (Obj v) = date_of lib v"
| "to_datetime1 lib (Number x) = date_of lib (JFloat x)"
| "to_datetime1 lib (Boolean b) = date_of lib (JBool b)"
| "to_datetime1 lib (Timestamp t) = Stamp t"
| "to_datetime1 lib NaT = Missing"

fun date_cell :: "dateconv \<Rightarrow> cell" where
  "date_cell (Stamp t) = Timestamp t"
| "date_cell Missing = NaT"
| "date_cell Invalid = NaT"

definition to_datetime :: "library \<Rightarrow> cell list \<Rightarrow> cell list option" where
  "to_datetime lib col =
     (if \<exists>c \<in> set col. to_datetime1 lib c = Invalid then None
      else Some (map (date_cell \<circ> to_datetime1 lib) col))"

section \<open>weather1.py\<close>

definition VARIABLES :: "string list" where
  "VARIABLES =
     [''temperature_2m_mean'',
      ''relative_humidity_2m_mean'',
      ''wind_speed_10m_mean'',
      ''cloud_cover_mean'',
      ''precipitation_sum'',
      ''shortwave_radiation_sum'',
      ''apparent_temperature_mean'',
      ''dew_point_2m_mean'']"

subsection \<open>fetch_forecast_weather\<close>

text \<open>
  The request is the environment's. \<^verbatim>\<open>requests.get\<close> or \<^verbatim>\<open>raise_for_status\<close> raises (transport,
  timeout or status), or line 61 logs the success and then \<^verbatim>\<open>response.json()\<close> of line 62
  returns the decoded value or raises. What it raises on a body that is not JSON is
  \<^verbatim>\<open>requests.exceptions.JSONDecodeError\<close>, a \<^verbatim>\<open>RequestException\<close> that the first \<^verbatim>\<open>except\<close> clause
  catches; before requests 2.27 it was \<^verbatim>\<open>json.JSONDecodeError\<close>, for the second clause. Every
  failure returns \<^verbatim>\<open>None\<close>.
\<close>

datatype reply = RequestFailed | NotJSON | NotJSONLegacy | Decoded json

fun fetch_forecast_weather :: "reply \<Rightarrow> entry list \<times> json" where
  "fetch_forecast_weather (Decoded v) =
     ([(INFO, FetchingFrom), (INFO, FetchedSuccessfully)], v)"
| "fetch_forecast_weather RequestFailed =
     ([(INFO, FetchingFrom), (ERROR, ErrorFetching)], JNull)"
| "fetch_forecast_weather NotJSON =
     ([(INFO, FetchingFrom), (INFO, FetchedSuccessfully), (ERROR, ErrorFetching)], JNull)"
| "fetch_forecast_weather NotJSONLegacy =
     ([(INFO, FetchingFrom), (INFO, FetchedSuccessfully), (ERROR, FailedToDecode),
       (ERROR, ResponseText)], JNull)"

subsection \<open>process_weather_data\<close>

text \<open>The name of a variable's column (lines 110 to 114).\<close>

definition new_col_name :: "library \<Rightarrow> (string \<times> json) list \<Rightarrow> string \<Rightarrow> string" where
  "new_col_name lib daily_units var =
     (let unit_str = (case map_of daily_units var of None \<Rightarrow> JNull | Some u \<Rightarrow> u) in
      if truthy unit_str then var @ '' ('' @ py_str lib unit_str @ '')'' else var)"

record loop_state =
  processed :: "(string \<times> json) list"
  new_column_names :: "string list"

text \<open>
  One round of the loop over \<open>VARIABLES\<close> (lines 108 to 127); \<open>n\<close> is \<^verbatim>\<open>len(dates)\<close>.
  \<^verbatim>\<open>daily_units.get\<close> raises when \<^verbatim>\<open>daily_units\<close> is not a dict.
\<close>

definition extract_variable ::
  "library \<Rightarrow> json \<Rightarrow> (string \<times> json) list \<Rightarrow> nat \<Rightarrow> string \<Rightarrow> loop_state
     \<Rightarrow> entry list \<times> loop_state outcome" where
  "extract_variable lib daily_units daily_data n var st =
     (case daily_units of
        JDict units \<Rightarrow>
          (let name = new_col_name lib units var;
               names = new_column_names st @ [name];
               missing = JList (replicate n JNull)
           in case map_of daily_data var of
                None \<Rightarrow>
                  ([(WARNING, VariableNotFound var)],
                   Return \<lparr>processed = AList.update name missing (processed st),
                           new_column_names = names\<rparr>)
              | Some (JList xs) \<Rightarrow>
                  if length xs \<noteq> n then
                    ([(ERROR, MismatchOrInvalid var)],
                     Return \<lparr>processed = AList.update name missing (processed st),
                             new_column_names = names\<rparr>)
                  else
                    ([(INFO, ProcessingVariable var name),
                      (DEBUG, FirstFewValues name (JList (take 5 xs)))],
                     Return \<lparr>processed = AList.update name (JList xs) (processed st),
                             new_column_names = names\<rparr>)
              | Some v \<Rightarrow>
                  ([(ERROR, MismatchOrInvalid var)],
                   Return \<lparr>processed = AList.update name missing (processed st),
                           new_column_names = names\<rparr>))
      | _ \<Rightarrow> ([], Raise AttributeError))"

fun extract_variables ::
  "library \<Rightarrow> json \<Rightarrow> (string \<times> json) list \<Rightarrow> nat \<Rightarrow> string list \<Rightarrow> loop_state
     \<Rightarrow> entry list \<times> loop_state outcome" where
  "extract_variables lib daily_units daily_data n [] st = ([], Return st)"
| "extract_variables lib daily_units daily_data n (var # vars) st =
     (case extract_variable lib daily_units daily_data n var st of
        (l, Raise e) \<Rightarrow> (l, Raise e)
      | (l, Return st') \<Rightarrow>
          (case extract_variables lib daily_units daily_data n vars st' of
             (l', r) \<Rightarrow> (l @ l', r)))"

text \<open>
  The numeric conversion of lines 135 to 137: every listed column but \<^verbatim>\<open>date\<close> is replaced
  by its conversion. Reading a column the frame does not have raises, and so does a
  conversion that raises.
\<close>

fun convert_columns :: "library \<Rightarrow> string list \<Rightarrow> dataframe \<Rightarrow> dataframe option" where
  "convert_columns lib [] df = Some df"
| "convert_columns lib (col_name # names) df =
     (if col_name \<noteq> ''date'' then
        (case map_of df col_name of
           None \<Rightarrow> None
         | Some col \<Rightarrow>
             (case to_numeric lib col of
                None \<Rightarrow> None
              | Some numbers \<Rightarrow> convert_columns lib names (AList.update col_name numbers df)))
      else convert_columns lib names df)"

text \<open>
  The body of the \<^verbatim>\<open>try\<close> (lines 132 to 144); \<open>None\<close> is any exception raised in it, which
  the \<^verbatim>\<open>except Exception\<close> of line 145 catches.
\<close>

definition build_frame :: "library \<Rightarrow> loop_state \<Rightarrow> dataframe option" where
  "build_frame lib st =
     (case DataFrame (processed st) of
        None \<Rightarrow> None
      | Some df0 \<Rightarrow>
          (case convert_columns lib (new_column_names st) df0 of
             None \<Rightarrow> None
           | Some df1 \<Rightarrow>
               (case map_of df1 ''date'' of
                  None \<Rightarrow> None
                | Some col \<Rightarrow>
                    (case to_datetime lib col of
                       None \<Rightarrow> None
                     | Some dates \<Rightarrow> Some (AList.update ''date'' dates df1)))))"

definition process_weather_data ::
  "library \<Rightarrow> json \<Rightarrow> entry list \<times> dataframe option outcome" where
  "process_weather_data lib data =
     (let log0 = [(DEBUG, RawTypeReceived (py_type data))] in
      case data of
        JDict d \<Rightarrow>
          (case (map_of d ''daily'', map_of d ''daily_units'') of
             (Some daily, Some daily_units) \<Rightarrow>
               (case daily of
                  JDict daily_data \<Rightarrow>
                    (let log1 = log0 @ [(DEBUG, KeysInDaily (map fst daily_data)),
                                        (DEBUG, FoundUnits daily_units)] in
                     case map_of daily_data ''time'' of
                       None \<Rightarrow> (log1 @ [(ERROR, MissingTime)], Return None)
                     | Some dates \<Rightarrow>
                         (case py_len dates of
                            Inl e \<Rightarrow> (log1, Raise e)
                          | Inr n \<Rightarrow>
                              (let log2 = log1 @ [(INFO, ProcessingDays n)] in
                               case py_slice5 dates of
                                 Inl e \<Rightarrow> (log2, Raise e)
                               | Inr first \<Rightarrow>
                                   (let log3 = log2 @ [(DEBUG, FirstFewDates first)] in
                                    case extract_variables lib daily_units daily_data n VARIABLES
                                           \<lparr>processed = [(''date'', dates)],
                                            new_column_names = [''date'']\<rparr> of
                                      (l, Raise e) \<Rightarrow> (log3 @ l, Raise e)
                                    | (l, Return st) \<Rightarrow>
                                        (let log4 = log3 @ l @ [(INFO, FinishedExtraction)] in
                                         case build_frame lib st of
                                           Some final_df \<Rightarrow>
                                             (log4 @ [(INFO, FrameCreated),
                                                      (DEBUG, FrameShape (nrows final_df) (length final_df)),
                                                      (DEBUG, FrameColumns (map fst final_df)),
                                                      (DEBUG, FrameHead)],
                                              Return (Some final_df))
                                         | None \<Rightarrow>
                                             (log4 @ [(ERROR, ErrorCreatingFrame)], Return None))))))
                | _ \<Rightarrow> (log0, Raise AttributeError))
           | _ \<Rightarrow>
               (log0 @ [(ERROR, MissingDailyOrUnits), (ERROR, ContentOfData data)], Return None))
      | _ \<Rightarrow>
          (log0 @ [(ERROR, NotADictionary (py_type data))]
                @ (if py_type data = TList then [(ERROR, ReturnedAList)] else []),
           Return None))"

subsection \<open>fetch_and_process_forecast\<close>

definition fetch_and_process_forecast ::
  "library \<Rightarrow> reply \<Rightarrow> entry list \<times> dataframe option outcome" where
  "fetch_and_process_forecast lib r =
     (let log0 = [(INFO, ExecutingFetchAndProcess)] in
      case fetch_forecast_weather r of
        (l, weather_json) \<Rightarrow>
          if truthy weather_json then
            (case process_weather_data lib weather_json of
               (l', final_df) \<Rightarrow> (log0 @ l @ l', final_df))
          else (log0 @ l @ [(ERROR, FailedToFetch)], Return None))"

section \<open>application.py\<close>

text \<open>
  The handler of \<^verbatim>\<open>/api/weather\<close>. \<^verbatim>\<open>len(df)\<close> is the number of rows and
  \<^verbatim>\<open>df.iloc[0].to_dict()\<close> pairs every column name with the cell of row 0; every column of a
  returned table has as many cells as the first. \<^verbatim>\<open>jsonify\<close> serialises numbers (also
  \<open>NaN\<close>), booleans and timestamps, and raises \<^verbatim>\<open>ValueError\<close> on \<^verbatim>\<open>NaT\<close>. The handler catches
  nothing: an exception of \<^verbatim>\<open>fetch_and_process_forecast\<close> or of \<^verbatim>\<open>jsonify\<close> passes through it.
\<close>

datatype body = Row "(string \<times> cell) list" | ErrorNoData | ServerErrorPage

type_synonym response = "nat \<times> body"

definition first_row :: "dataframe \<Rightarrow> (string \<times> cell) list" where
  "first_row df = map (\<lambda>(k, col). (k, col ! 0)) df"

definition jsonify :: "(string \<times> cell) list \<Rightarrow> body outcome" where
  "jsonify row = (if \<exists>kv \<in> set row. snd kv = NaT then Raise ValueError else Return (Row row))"

definition weather :: "library \<Rightarrow> reply \<Rightarrow> response outcome" where
  "weather lib r =
     (case snd (fetch_and_process_forecast lib r) of
        Raise e \<Rightarrow> Raise e
      | Return None \<Rightarrow> Return (500, ErrorNoData)
      | Return (Some df) \<Rightarrow>
          if nrows df > 0 then
            (case jsonify (first_row df) of
               Raise e \<Rightarrow> Raise e
             | Return b \<Rightarrow> Return (200, b))
          else Return (500, ErrorNoData))"

text \<open>
  What \<^verbatim>\<open>GET /api/weather\<close> answers: the handler's response, or, when the handler raises,
  the framework's own page for an internal server error, with status 500.
\<close>

definition get_api_weather :: "library \<Rightarrow> reply \<Rightarrow> response" where
  "get_api_weather lib r =
     (case weather lib r of
        Raise e \<Rightarrow> (500, ServerErrorPage)
      | Return response \<Rightarrow> response)"

section \<open>The transformer on a store\<close>

text \<open>
  The functions above take the payload as a value. Python hands \<^verbatim>\<open>process_weather_data\<close> a
  reference: lists and dicts are objects in a store, and \<^verbatim>\<open>processed\<close> is filled with
  references to the very lists of the payload. A store is the list of its objects, an
  address is an index, and a value is an atom or a reference. \<open>load\<close> reads the JSON value
  behind a value, to the given depth.
\<close>

datatype val = VNull | VBool bool | VInt int | VFloat pyfloat | VStr string | VRef nat

datatype obj = OList "val list" | ODict "(string \<times> val) list"

type_synonym store = "obj list"

fun deref :: "store \<Rightarrow> val \<Rightarrow> obj option" where
  "deref h (VRef a) = (if a < length h then Some (h ! a) else None)"
| "deref h v = None"

fun load :: "nat \<Rightarrow> store \<Rightarrow> val \<Rightarrow> json" where
  "load n h VNull = JNull"
| "load n h (VBool b) = JBool b"
| "load n h (VInt i) = JInt i"
| "load n h (VFloat f) = JFloat f"
| "load n h (VStr s) = JStr s"
| "load 0 h (VRef a) = JNull"
| "load (Suc n) h (VRef a) =
     (case deref h (VRef a) of
        Some (OList vs) \<Rightarrow> JList (map (load n h) vs)
      | Some (ODict kvs) \<Rightarrow> JDict (map (\<lambda>(k, v). (k, load n h v)) kvs)
      | None \<Rightarrow> JNull)"

text \<open>A new object, \<^verbatim>\<open>d[k] = v\<close> on a dict and \<^verbatim>\<open>xs.append(v)\<close> on a list.\<close>

definition alloc :: "obj \<Rightarrow> store \<Rightarrow> nat \<times> store" where
  "alloc ob h = (length h, h @ [ob])"

definition setitem :: "nat \<Rightarrow> string \<Rightarrow> val \<Rightarrow> store \<Rightarrow> store" where
  "setitem a k v h =
     (case deref h (VRef a) of
        Some (ODict kvs) \<Rightarrow> h[a := ODict (AList.update k v kvs)]
      | _ \<Rightarrow> h)"

definition append_item :: "nat \<Rightarrow> val \<Rightarrow> store \<Rightarrow> store" where
  "append_item a v h =
     (case deref h (VRef a) of
        Some (OList vs) \<Rightarrow> h[a := OList (vs @ [v])]
      | _ \<Rightarrow> h)"

text \<open>\<^verbatim>\<open>if x:\<close>, \<^verbatim>\<open>len(x)\<close> and whether \<^verbatim>\<open>x[:5]\<close> raises, read from the store.\<close>

fun truthy_store :: "store \<Rightarrow> val \<Rightarrow> bool" where
  "truthy_store h (VRef a) =
     (case deref h (VRef a) of
        Some (OList vs) \<Rightarrow> vs \<noteq> []
      | Some (ODict kvs) \<Rightarrow> kvs \<noteq> []
      | None \<Rightarrow> False)"
| "truthy_store h v = truthy (load 0 h v)"

fun len_store :: "store \<Rightarrow> val \<Rightarrow> exn + nat" where
  "len_store h (VStr s) = Inr (length s)"
| "len_store h (VRef a) =
     (case deref h (VRef a) of
        Some (OList vs) \<Rightarrow> Inr (length vs)
      | Some (ODict kvs) \<Rightarrow> Inr (length kvs)
      | None \<Rightarrow> Inl TypeError)"
| "len_store h v = Inl TypeError"

fun slice5_store :: "store \<Rightarrow> val \<Rightarrow> exn option" where
  "slice5_store h (VStr s) = None"
| "slice5_store h (VRef a) =
     (case deref h (VRef a) of
        Some (OList vs) \<Rightarrow> None
      | Some (ODict kvs) \<Rightarrow> Some SliceError
      | None \<Rightarrow> Some TypeError)"
| "slice5_store h v = Some TypeError"

text \<open>
  \<^verbatim>\<open>processed[new_col_name] = [None] * len(dates)\<close>: a new list, then the assignment to the
  dict at \<open>p\<close>.
\<close>

definition store_missing :: "nat \<Rightarrow> nat \<Rightarrow> string \<Rightarrow> store \<Rightarrow> store" where
  "store_missing n p name h =
     (case alloc (OList (replicate n VNull)) h of
        (m, h') \<Rightarrow> setitem p name (VRef m) h')"

text \<open>
  One round of the loop, with \<^verbatim>\<open>processed\<close> at address \<open>p\<close> and \<^verbatim>\<open>new_column_names\<close> at
  address \<open>c\<close>: line 115 appends the name, and lines 118 to 125 store either a new list of
  \<^verbatim>\<open>None\<close> or the reference \<^verbatim>\<open>daily_data[var]\<close> itself. (The last case of \<^verbatim>\<open>daily_data\<close> cannot
  occur: line 93 has raised unless \<^verbatim>\<open>daily\<close> is a dict.)
\<close>

definition extract_variable_store ::
  "library \<Rightarrow> val \<Rightarrow> val \<Rightarrow> nat \<Rightarrow> nat \<Rightarrow> nat \<Rightarrow> string \<Rightarrow> store \<Rightarrow> store \<times> exn option" where
  "extract_variable_store lib daily_units daily_data n p c var h =
     (case deref h daily_units of
        Some (ODict units) \<Rightarrow>
          (let unit_str = (case map_of units var of None \<Rightarrow> VNull | Some u \<Rightarrow> u);
               name = (if truthy_store h unit_str
                       then var @ '' ('' @ py_str lib (load (length h) h unit_str) @ '')''
                       else var);
               h1 = append_item c (VStr name) h
           in case deref h1 daily_data of
                Some (ODict items) \<Rightarrow>
                  (case map_of items var of
                     None \<Rightarrow> (store_missing n p name h1, None)
                   | Some x \<Rightarrow>
                       (case deref h1 x of
                          Some (OList xs) \<Rightarrow>
                            if length xs \<noteq> n then (store_missing n p name h1, None)
                            else (setitem p name x h1, None)
                        | _ \<Rightarrow> (store_missing n p name h1, None)))
              | _ \<Rightarrow> (h1, Some TypeError))
      | _ \<Rightarrow> (h, Some AttributeError))"

fun extract_variables_store ::
  "library \<Rightarrow> val \<Rightarrow> val \<Rightarrow> nat \<Rightarrow> nat \<Rightarrow> nat \<Rightarrow> string list \<Rightarrow> store \<Rightarrow> store \<times> exn option" where
  "extract_variables_store lib daily_units daily_data n p c [] h = (h, None)"
| "extract_variables_store lib daily_units daily_data n p c (var # vars) h =
     (case extract_variable_store lib daily_units daily_data n p c var h of
        (h', Some e) \<Rightarrow> (h', Some e)
      | (h', None) \<Rightarrow> extract_variables_store lib daily_units daily_data n p c vars h')"

text \<open>The dict and the list the loop has filled, read back as the state of the loop.\<close>

definition loaded_state :: "store \<Rightarrow> nat \<Rightarrow> nat \<Rightarrow> loop_state" where
  "loaded_state h p c =
     \<lparr>processed = (case load (length h) h (VRef p) of JDict kvs \<Rightarrow> kvs | _ \<Rightarrow> []),
      new_column_names =
        (case deref h (VRef c) of
           Some (OList vs) \<Rightarrow> map (\<lambda>v. case v of VStr s \<Rightarrow> s | _ \<Rightarrow> []) vs
         | _ \<Rightarrow> [])\<rparr>"

text \<open>
  The transformer on the store. Line 104 allocates \<^verbatim>\<open>processed\<close> with the reference to
  \<^verbatim>\<open>dates\<close> in it, line 105 allocates \<^verbatim>\<open>new_column_names\<close>. The slices and strings made
  for log messages are dropped at once and are not allocated here. \<^verbatim>\<open>pd.DataFrame\<close> copies
  the lists it is given into arrays of its own, and the assignments of lines 137 and 139
  change the frame, which is not in the store.
\<close>

definition process_weather_data_store ::
  "library \<Rightarrow> store \<Rightarrow> val \<Rightarrow> store \<times> dataframe option outcome" where
  "process_weather_data_store lib h data =
     (case deref h data of
        Some (ODict d) \<Rightarrow>
          (case (map_of d ''daily'', map_of d ''daily_units'') of
             (Some daily, Some daily_units) \<Rightarrow>
               (case deref h daily of
                  Some (ODict daily_data) \<Rightarrow>
                    (case map_of daily_data ''time'' of
                       None \<Rightarrow> (h, Return None)
                     | Some dates \<Rightarrow>
                         (case len_store h dates of
                            Inl e \<Rightarrow> (h, Raise e)
                          | Inr n \<Rightarrow>
                              (case slice5_store h dates of
                                 Some e \<Rightarrow> (h, Raise e)
                               | None \<Rightarrow>
                                   (case alloc (ODict [(''date'', dates)]) h of
                                      (p, h1) \<Rightarrow>
                                        (case alloc (OList [VStr ''date'']) h1 of
                                           (c, h2) \<Rightarrow>
                                             (case extract_variables_store lib daily_units daily n p c
                                                     VARIABLES h2 of
                                                (h3, Some e) \<Rightarrow> (h3, Raise e)
                                              | (h3, None) \<Rightarrow>
                                                  (h3, Return (build_frame lib (loaded_state h3 p c)))))))))
                | _ \<Rightarrow> (h, Raise AttributeError))
           | _ \<Rightarrow> (h, Return None))
      | _ \<Rightarrow> (h, Return None))"

section \<open>Reference functions for the statements\<close>

text \<open>
  What the loop stores for a variable (lines 118 to 125): its own list when \<^verbatim>\<open>daily\<close> has one
  of the right length, and \<open>n\<close> times \<^verbatim>\<open>None\<close> otherwise.
\<close>

definition column_data :: "(string \<times> json) list \<Rightarrow> nat \<Rightarrow> string \<Rightarrow> json list" where
  "column_data daily_data n var =
     (case map_of daily_data var of
        Some (JList xs) \<Rightarrow> if length xs = n then xs else replicate n JNull
      | _ \<Rightarrow> replicate n JNull)"

text \<open>
  The frame the transformer builds once the payload has reached the loop, if no conversion
  raises: the converted \<^verbatim>\<open>date\<close> column, then one converted column per variable.
\<close>

definition expected_frame ::
  "library \<Rightarrow> (string \<times> json) list \<Rightarrow> (string \<times> json) list \<Rightarrow> nat \<Rightarrow> json \<Rightarrow> dataframe option" where
  "expected_frame lib units daily_data n dates =
     (if \<exists>v \<in> set VARIABLES. numeric_raises lib (map Obj (column_data daily_data n v)) then None
      else case to_datetime lib (broadcast n dates) of
             None \<Rightarrow> None
           | Some dcol \<Rightarrow>
               Some ((''date'', dcol) #
                     map (\<lambda>v. (new_col_name lib units v,
                               numeric_cells lib (map Obj (column_data daily_data n v))))
                       VARIABLES))"

text \<open>
  Stores as a decoder builds them: the objects a list or dict refers to are allocated
  before it. On such a store the value behind a reference does not depend on the depth
  \<open>load\<close> is given.
\<close>

fun refs_below :: "nat \<Rightarrow> val \<Rightarrow> bool" where
  "refs_below a (VRef b) = (b < a)"
| "refs_below a v = True"

fun obj_vals :: "obj \<Rightarrow> val list" where
  "obj_vals (OList vs) = vs"
| "obj_vals (ODict kvs) = map snd kvs"

definition ordered :: "store \<Rightarrow> bool" where
  "ordered h = (\<forall>a < length h. \<forall>v \<in> set (obj_vals (h ! a)). refs_below a v)"

definition value_of :: "store \<Rightarrow> val \<Rightarrow> json" where
  "value_of h v = load (length h) h v"

text \<open>
  The invariant of the loop on the store, against the state of the loop on values: an entry
  of \<^verbatim>\<open>processed\<close> is a value of the payload, or a new list of \<^verbatim>\<open>None\<close>.
\<close>

definition rep :: "store \<Rightarrow> store \<Rightarrow> nat \<Rightarrow> nat \<Rightarrow> val \<Rightarrow> json \<Rightarrow> bool" where
  "rep h0 h p c v j \<longleftrightarrow>
     (refs_below (length h0) v \<and> j = value_of h0 v) \<or>
     (\<exists>x n. v = VRef x \<and> length h0 \<le> x \<and> x < length h \<and> x \<noteq> p \<and> x \<noteq> c \<and>
            h ! x = OList (replicate n VNull) \<and> j = JList (replicate n JNull))"

definition loop_inv :: "store \<Rightarrow> nat \<Rightarrow> nat \<Rightarrow> store \<Rightarrow> loop_state \<Rightarrow> bool" where
  "loop_inv h0 p c h st \<longleftrightarrow>
     take (length h0) h = h0 \<and> length h0 \<le> p \<and> p < length h \<and> length h0 \<le> c \<and> c < length h \<and>
     p \<noteq> c \<and> h ! c = OList (map VStr (new_column_names st)) \<and>
     (\<exists>pd. h ! p = ODict pd \<and>
           list_all2 (\<lambda>kv kj. fst kv = fst kj \<and> rep h0 h p c (snd kv) (snd kj)) pd (processed st))"

section \<open>A sample library and sample payloads\<close>

text \<open>
  Python's \<^verbatim>\<open>float(n)\<close> for an integer: the nearest number with 53 significant bits, ties to
  even, and \<^verbatim>\<open>OverflowError\<close> from \<open>2 ^ 1024\<close> on.
\<close>

fun bit_length :: "nat \<Rightarrow> nat" where
  "bit_length n = (if n = 0 then 0 else Suc (bit_length (n div 2)))"

declare bit_length.simps [simp del]

definition nearest_float :: "int \<Rightarrow> int" where
  "nearest_float n =
     (let m = nat \<bar>n\<bar>;
          e = bit_length m - 53;
          q = m div 2 ^ e;
          r = m mod 2 ^ e;
          q' = (if 2 ^ e < 2 * r \<or> (2 * r = 2 ^ e \<and> odd q) then q + 1 else q)
      in sgn n * int (q' * 2 ^ e))"

definition python_float :: "int \<Rightarrow> pyfloat option" where
  "python_float n =
     (if \<bar>n\<bar> \<le> 2 ^ 53 then Some (Finite (of_int n))
      else if 2 ^ 1024 \<le> \<bar>n\<bar> then None
      else if 2 ^ 1024 \<le> \<bar>nearest_float n\<bar> then None
      else Some (Finite (of_int (nearest_float n))))"

text \<open>
  A library to run the model with: it reads one number and two dates, and stores a column
  as floats when the list holds anything but integers and booleans, as pandas does for the
  lists below. The first payload is the end-to-end scenario of the specification.
\<close>

definition sample_library :: library where
  "sample_library =
     \<lparr>py_repr = (\<lambda>v. ''?''),
      str_to_number = (\<lambda>s. if s = ''1.5'' then Some (Finite (3 / 2)) else None),
      float_of_int = python_float,
      float_column = list_ex (\<lambda>v. py_type v \<noteq> TInt \<and> py_type v \<noteq> TBool),
      date_of = (\<lambda>v. if v = JStr ''2024-01-01'' then Stamp 1704067200000000000
                      else if v = JStr ''2024-01-02'' then Stamp 1704153600000000000
                      else Invalid)\<rparr>"

definition scenario :: json where
  "scenario =
     JDict [(''daily'', JDict [(''time'', JList [JStr ''2024-01-01'', JStr ''2024-01-02'']),
                               (''temperature_2m_mean'', JList [JFloat (Finite 1), JFloat (Finite 2)])]),
            (''daily_units'', JDict [(''temperature_2m_mean'', JStr [CHR 0xB0, CHR ''C''])])]"

definition scenario_table :: dataframe where
  "scenario_table =
     [(''date'', [Timestamp 1704067200000000000, Timestamp 1704153600000000000]),
      (''temperature_2m_mean ('' @ [CHR 0xB0, CHR ''C''] @ '')'', [Number (Finite 1), Number (Finite 2)]),
      (''relative_humidity_2m_mean'', [Number NaN, Number NaN]),
      (''wind_speed_10m_mean'', [Number NaN, Number NaN]),
      (''cloud_cover_mean'', [Number NaN, Number NaN]),
      (''precipitation_sum'', [Number NaN, Number NaN]),
      (''shortwave_radiation_sum'', [Number NaN, Number NaN]),
      (''apparent_temperature_mean'', [Number NaN, Number NaN]),
      (''dew_point_2m_mean'', [Number NaN, Number NaN])]"

definition full_response :: json where
  "full_response =
     JDict [(''daily'',
             JDict ((''time'', JList [JStr ''2024-01-01'', JStr ''2024-01-02'']) #
                    map (\<lambda>v. (v, JList [JInt 3, JFloat (Finite (1 / 2))])) VARIABLES)),
            (''daily_units'', JDict (map (\<lambda>v. (v, JStr ''mm'')) VARIABLES))]"

definition empty_unit_response :: json where
  "empty_unit_response =
     JDict [(''daily'',
             JDict ((''time'', JList [JStr ''2024-01-01'']) #
                    map (\<lambda>v. (v, JList [JInt 3])) VARIABLES)),
            (''daily_units'',
             JDict (map (\<lambda>v. (v, JStr (if v = ''temperature_2m_mean'' then '''' else ''mm'')))
                        VARIABLES))]"

definition unparseable_date_response :: json where
  "unparseable_date_response =
     JDict [(''daily'', JDict [(''time'', JList [JStr ''not a date''])]),
            (''daily_units'', JDict [])]"

definition null_date_response :: json where
  "null_date_response =
     JDict [(''daily'', JDict [(''time'', JList [JNull])]),
            (''daily_units'', JDict [])]"

definition mixed_values_response :: json where
  "mixed_values_response =
     JDict [(''daily'', JDict [(''time'', JList [JStr ''2024-01-01'', JNull]),
                               (''cloud_cover_mean'', JList [JStr ''1.5'', JStr ''n/a''])]),
            (''daily_units'', JDict [])]"

definition no_days_response :: json where
  "no_days_response =
     JDict [(''daily'', JDict [(''time'', JList [])]), (''daily_units'', JDict [])]"

text \<open>An integer beyond the range of floats, in a response that is valid otherwise.\<close>

definition huge_int_response :: json where
  "huge_int_response =
     JDict [(''daily'',
             JDict ((''time'', JList [JStr ''2024-01-01'']) #
                    map (\<lambda>v. (v, JList [JInt (if v = ''precipitation_sum'' then 10 ^ 400 else 3)]))
                      VARIABLES)),
            (''daily_units'', JDict (map (\<lambda>v. (v, JStr ''mm'')) VARIABLES))]"

text \<open>The same integer beside missing variables.\<close>

definition huge_int_only_response :: json where
  "huge_int_only_response =
     JDict [(''daily'', JDict [(''time'', JList [JStr ''2024-01-01'']),
                               (''precipitation_sum'', JList [JInt (10 ^ 400)])]),
            (''daily_units'', JDict [])]"


definition daily_is_a_list_response :: json where
  "daily_is_a_list_response = JDict [(''daily'', JList []), (''daily_units'', JDict [])]"

text \<open>The scenario payload as the decoder lays it out, the payload last.\<close>

definition scenario_store :: store where
  "scenario_store =
     [OList [VStr ''2024-01-01'', VStr ''2024-01-02''],
      OList [VFloat (Finite 1), VFloat (Finite 2)],
      ODict [(''time'', VRef 0), (''temperature_2m_mean'', VRef 1)],
      ODict [(''temperature_2m_mean'', VStr [CHR 0xB0, CHR ''C''])],
      ODict [(''daily'', VRef 2), (''daily_units'', VRef 3)]]"

section \<open>The loop over the variables\<close>

lemma length_column_data: "length (column_data daily_data n var) = n"
  by (simp add: column_data_def split: option.splits json.splits)

lemma column_data_wellformed:
  "map_of dd v = Some (JList xs) \<Longrightarrow> length xs = n \<Longrightarrow> column_data dd n v = xs"
  by (simp add: column_data_def)

lemma column_data_degraded:
  "map_of dd v = None \<or> (\<exists>x. map_of dd v = Some x \<and> py_type x \<noteq> TList) \<or>
     (\<exists>xs. map_of dd v = Some (JList xs) \<and> length xs \<noteq> n) \<Longrightarrow>
   column_data dd n v = replicate n JNull"
  by (auto simp: column_data_def split: option.splits json.splits)

lemma extract_variable_units:
  "snd (extract_variable lib (JDict u) dd n var st) =
     Return \<lparr>processed = AList.update (new_col_name lib u var) (JList (column_data dd n var)) (processed st),
             new_column_names = new_column_names st @ [new_col_name lib u var]\<rparr>"
  by (simp add: extract_variable_def column_data_def Let_def split: option.splits json.splits)

lemma extract_variables_units:
  "snd (extract_variables lib (JDict u) dd n vars st) =
     Return \<lparr>processed = fold (\<lambda>v. AList.update (new_col_name lib u v) (JList (column_data dd n v))) vars (processed st),
             new_column_names = new_column_names st @ map (new_col_name lib u) vars\<rparr>"
proof (induction vars arbitrary: st)
  case Nil
  show ?case by simp
next
  case (Cons var vars)
  obtain l r where lr: "extract_variable lib (JDict u) dd n var st = (l, r)"
    by (cases "extract_variable lib (JDict u) dd n var st")
  with extract_variable_units [of lib u dd n var st]
  have r: "r = Return \<lparr>processed = AList.update (new_col_name lib u var) (JList (column_data dd n var)) (processed st),
             new_column_names = new_column_names st @ [new_col_name lib u var]\<rparr>"
    by simp
  have "snd (case extract_variables lib (JDict u) dd n vars st' of (l', r) \<Rightarrow> (l @ l', r)) =
          snd (extract_variables lib (JDict u) dd n vars st')" for st'
    by (cases "extract_variables lib (JDict u) dd n vars st'") simp
  then show ?case
    by (simp add: lr r Cons.IH)
qed

lemma extract_variables_not_dict:
  "py_type units \<noteq> TDict \<Longrightarrow>
     extract_variables lib units dd n (v # vs) st = ([], Raise AttributeError)"
  by (cases units) (simp_all add: extract_variable_def)

lemma update_fresh: "k \<notin> fst ` set al \<Longrightarrow> AList.update k v al = al @ [(k, v)]"
  by (induction al) auto

lemma fold_update_fresh:
  "distinct (map fst al @ map f vs) \<Longrightarrow>
     fold (\<lambda>v. AList.update (f v) (g v)) vs al = al @ map (\<lambda>v. (f v, g v)) vs"
proof (induction vs arbitrary: al)
  case Nil
  show ?case by simp
next
  case (Cons v vs)
  from Cons.prems have fresh: "f v \<notin> fst ` set al" by auto
  from Cons.prems have "distinct (map fst (al @ [(f v, g v)]) @ map f vs)" by auto
  from Cons.IH [OF this] show ?case by (simp add: update_fresh [OF fresh])
qed

lemma update_existing:
  "distinct (map fst al) \<Longrightarrow> map_of al k = Some c \<Longrightarrow>
     AList.update k v al = map (\<lambda>(k', c'). (k', if k' = k then v else c')) al"
proof (induction al)
  case Nil
  then show ?case by simp
next
  case (Cons p al)
  show ?case
  proof (cases "fst p = k")
    case True
    with Cons.prems have "k \<notin> fst ` set al" by auto
    then have "map (\<lambda>(k', c'). (k', if k' = k then v else c')) al = al"
      by (induction al) auto
    with True show ?thesis by (cases p) simp
  next
    case False
    with Cons show ?thesis by (cases p) auto
  qed
qed

subsection \<open>Column names are distinct\<close>

text \<open>
  A column name starts with its variable, and no variable is a prefix of another or of
  \<^verbatim>\<open>date\<close>: no assignment to \<^verbatim>\<open>processed\<close> overwrites an earlier one.
\<close>

lemma new_col_name_prefix: "prefix var (new_col_name lib u var)"
  by (simp add: new_col_name_def Let_def)

lemma VARIABLES_no_prefix: "v \<in> set VARIABLES \<Longrightarrow> w \<in> set VARIABLES \<Longrightarrow> prefix v w \<Longrightarrow> v = w"
  unfolding VARIABLES_def by (elim set_ConsD [elim_format] disjE; simp)

lemma VARIABLES_not_date: "v \<in> set VARIABLES \<Longrightarrow> \<not> prefix v ''date''"
  by (auto simp: VARIABLES_def)

lemma distinct_VARIABLES: "distinct VARIABLES"
  by (simp add: VARIABLES_def)

lemma distinct_column_names: "distinct (''date'' # map (new_col_name lib u) VARIABLES)"
proof -
  have "inj_on (new_col_name lib u) (set VARIABLES)"
  proof (rule inj_onI)
    fix v w assume v: "v \<in> set VARIABLES" and w: "w \<in> set VARIABLES"
      and eq: "new_col_name lib u v = new_col_name lib u w"
    have "prefix v (new_col_name lib u w)" "prefix w (new_col_name lib u w)"
      using new_col_name_prefix [of v lib u] new_col_name_prefix [of w lib u] eq by simp_all
    then have "prefix v w \<or> prefix w v" by (rule prefix_same_cases)
    then show "v = w" using VARIABLES_no_prefix v w by blast
  qed
  moreover have "''date'' \<notin> new_col_name lib u ` set VARIABLES"
  proof
    assume "''date'' \<in> new_col_name lib u ` set VARIABLES"
    then obtain v where v: "v \<in> set VARIABLES" and "new_col_name lib u v = ''date''" by auto
    then have "prefix v ''date''" using new_col_name_prefix [of v lib u] by simp
    then show False using VARIABLES_not_date v by blast
  qed
  ultimately show ?thesis by (simp add: distinct_map distinct_VARIABLES)
qed

lemma inj_on_new_col_name: "inj_on (new_col_name lib u) (set VARIABLES)"
  using distinct_column_names [of lib u] by (simp add: distinct_map)

lemma new_col_name_not_date: "v \<in> set VARIABLES \<Longrightarrow> new_col_name lib u v \<noteq> ''date''"
  using new_col_name_prefix [of v lib u] VARIABLES_not_date [of v] by auto

section \<open>Building the frame\<close>

lemma map_filter_columns:
  "List.map_filter column_length (map (\<lambda>v. (nm v, JList (col v))) vs) = map (\<lambda>v. length (col v)) vs"
  by (induction vs) (simp_all add: List.map_filter_simps)

lemma DataFrame_processed:
  assumes "py_len dates = Inr n" and "py_slice5 dates = Inr f" and "vs \<noteq> []"
    and "\<forall>v \<in> set vs. length (col v) = n"
  shows "DataFrame ((''date'', dates) # map (\<lambda>v. (nm v, JList (col v))) vs) =
           Some ((''date'', broadcast n dates) # map (\<lambda>v. (nm v, map Obj (col v))) vs)"
proof -
  have lens: "map (\<lambda>v. length (col v)) vs = replicate (length vs) n"
    using assms(4) by (simp add: map_replicate_const [symmetric] cong: map_cong)
  from assms(3) obtain k where k: "length vs = Suc k" by (cases vs) auto
  have mf: "List.map_filter column_length ((''date'', dates) # map (\<lambda>v. (nm v, JList (col v))) vs) =
      (case dates of JList xs \<Rightarrow> [n] | _ \<Rightarrow> []) @ replicate (Suc k) n"
    using assms(1) by (cases dates) (simp_all add: List.map_filter_simps map_filter_columns lens k)
  have nodict: "py_type dates \<noteq> TDict"
    using assms(2) by (cases dates) simp_all
  have hd: "hd ((case dates of JList xs \<Rightarrow> [n] | _ \<Rightarrow> []) @ replicate (Suc k) n) = n"
    by (cases dates) simp_all
  have all: "\<forall>l \<in> set ((case dates of JList xs \<Rightarrow> [n] | _ \<Rightarrow> []) @ replicate (Suc k) n). l = n"
    by (cases dates) simp_all
  have ne: "(case dates of JList xs \<Rightarrow> [n] | _ \<Rightarrow> []) @ replicate (Suc k) n \<noteq> []"
    by simp
  have "DataFrame ((''date'', dates) # map (\<lambda>v. (nm v, JList (col v))) vs) =
      Some (map (\<lambda>(k, v). (k, broadcast n v)) ((''date'', dates) # map (\<lambda>v. (nm v, JList (col v))) vs))"
    unfolding DataFrame_def Let_def mf hd using all ne nodict by (auto simp del: replicate_Suc)
  then show ?thesis by (simp add: comp_def)
qed

lemma convert_columns_distinct:
  "distinct names \<Longrightarrow> distinct (map fst df) \<Longrightarrow> set names \<subseteq> insert ''date'' (fst ` set df) \<Longrightarrow>
     convert_columns lib names df =
       (if \<exists>kc \<in> set df. fst kc \<in> set names \<and> fst kc \<noteq> ''date'' \<and> numeric_raises lib (snd kc)
        then None
        else Some (map (\<lambda>(k, c). (k, if k \<in> set names \<and> k \<noteq> ''date'' then numeric_cells lib c else c))
                     df))"
proof (induction names arbitrary: df)
  case Nil
  show ?case by simp
next
  case (Cons a names)
  show ?case
  proof (cases "a = ''date''")
    case True
    with Cons.prems have "convert_columns lib names df =
       (if \<exists>kc \<in> set df. fst kc \<in> set names \<and> fst kc \<noteq> ''date'' \<and> numeric_raises lib (snd kc)
        then None
        else Some (map (\<lambda>(k, c). (k, if k \<in> set names \<and> k \<noteq> ''date'' then numeric_cells lib c else c))
                     df))"
      by (intro Cons.IH) auto
    with True show ?thesis by (auto simp: case_prod_unfold)
  next
    case False
    with Cons.prems have "a \<in> fst ` set df" by auto
    then obtain c where c: "map_of df a = Some c"
      by (metis domD dom_map_of_conv_image_fst)
    have unique: "\<And>k c'. (k, c') \<in> set df \<Longrightarrow> k = a \<Longrightarrow> c' = c"
      using c Cons.prems(2) by (metis map_of_is_SomeI option.inject)
    have mem: "(a, c) \<in> set df"
      using c by (rule map_of_SomeD)
    show ?thesis
    proof (cases "numeric_raises lib c")
      case True
      then have "\<exists>kc \<in> set df. fst kc \<in> set (a # names) \<and> fst kc \<noteq> ''date'' \<and>
          numeric_raises lib (snd kc)"
        using mem False by force
      then show ?thesis
        using False c True by (simp add: to_numeric_def)
    next
      case ok: False
      let ?df = "AList.update a (numeric_cells lib c) df"
      have upd: "?df = map (\<lambda>(k', c'). (k', if k' = a then numeric_cells lib c else c')) df"
        using Cons.prems(2) c by (rule update_existing)
      have keys: "map fst ?df = map fst df"
        by (simp add: upd case_prod_unfold comp_def)
      have notin: "a \<notin> set names" using Cons.prems(1) by simp
      have IH: "convert_columns lib names ?df =
         (if \<exists>kc \<in> set ?df. fst kc \<in> set names \<and> fst kc \<noteq> ''date'' \<and> numeric_raises lib (snd kc)
          then None
          else Some (map (\<lambda>(k, c). (k, if k \<in> set names \<and> k \<noteq> ''date'' then numeric_cells lib c else c))
                       ?df))"
      proof (rule Cons.IH)
        show "distinct names" using Cons.prems(1) by simp
        show "distinct (map fst ?df)" using Cons.prems(2) by (simp only: keys)
        show "set names \<subseteq> insert ''date'' (fst ` set ?df)"
          using Cons.prems(3) by (auto simp: dom_update)
      qed
      have raises: "(\<exists>kc \<in> set ?df. fst kc \<in> set names \<and> fst kc \<noteq> ''date'' \<and> numeric_raises lib (snd kc))
          \<longleftrightarrow> (\<exists>kc \<in> set df. fst kc \<in> set (a # names) \<and> fst kc \<noteq> ''date'' \<and>
                 numeric_raises lib (snd kc))"
        (is "?L \<longleftrightarrow> ?R")
      proof
        assume ?L
        then obtain k c' where "(k, c') \<in> set ?df" "k \<in> set names" "k \<noteq> ''date''"
          "numeric_raises lib c'" by auto
        moreover from this notin have "k \<noteq> a" by auto
        ultimately have "(k, c') \<in> set df" unfolding upd by auto
        with \<open>k \<in> set names\<close> \<open>k \<noteq> ''date''\<close> \<open>numeric_raises lib c'\<close> show ?R by force
      next
        assume ?R
        then obtain k c' where kc: "(k, c') \<in> set df" "k \<in> set (a # names)" "k \<noteq> ''date''"
          "numeric_raises lib c'" by auto
        with unique ok have "k \<noteq> a" by auto
        with kc have "(k, c') \<in> set ?df" "k \<in> set names" unfolding upd by force+
        with kc show ?L by force
      qed
      have cells: "map (\<lambda>(k, c). (k, if k \<in> set names \<and> k \<noteq> ''date'' then numeric_cells lib c else c)) ?df
          = map (\<lambda>(k, c). (k, if k \<in> set (a # names) \<and> k \<noteq> ''date'' then numeric_cells lib c else c)) df"
        unfolding upd using notin unique False by (auto simp: case_prod_unfold)
      have "convert_columns lib (a # names) df = convert_columns lib names ?df"
        using False c ok by (simp add: to_numeric_def)
      then show ?thesis
        unfolding IH raises cells by simp
    qed
  qed
qed

lemma to_datetime_length: "to_datetime lib col = Some dcol \<Longrightarrow> length dcol = length col"
  by (auto simp: to_datetime_def split: if_splits)


lemma length_numeric_cells [simp]: "length (numeric_cells lib col) = length col"
  by (simp add: numeric_cells_def)

lemma numeric_raises_objects:
  "numeric_raises lib (map Obj xs) \<longleftrightarrow> (\<exists>n. JInt n \<in> set xs \<and> float_of_int lib n = None)"
proof
  assume "numeric_raises lib (map Obj xs)"
  then obtain x where x: "x \<in> set xs" and over: "overflows lib (Obj x)"
    by (auto simp: numeric_raises_def)
  from over obtain n where "x = JInt n" and "float_of_int lib n = None"
    by (cases x) auto
  with x show "\<exists>n. JInt n \<in> set xs \<and> float_of_int lib n = None"
    by blast
next
  assume "\<exists>n. JInt n \<in> set xs \<and> float_of_int lib n = None"
  then obtain n where "JInt n \<in> set xs" "overflows lib (Obj (JInt n))" by auto
  then show "numeric_raises lib (map Obj xs)"
    unfolding numeric_raises_def by force
qed

lemma numeric_raises_nulls [simp]: "\<not> numeric_raises lib (replicate n (Obj JNull))"
  by (simp add: numeric_raises_def)

lemma numeric_cells_nulls [simp]:
  "numeric_cells lib (replicate n (Obj JNull)) = replicate n (Number NaN)"
  by (simp add: numeric_cells_def)

lemma numeric_raises_column_data:
  "numeric_raises lib (map Obj (column_data dd n v)) \<longleftrightarrow>
     (\<exists>xs k. map_of dd v = Some (JList xs) \<and> length xs = n \<and> JInt k \<in> set xs \<and>
             float_of_int lib k = None)"
proof (cases "\<exists>xs. map_of dd v = Some (JList xs) \<and> length xs = n")
  case True
  then obtain xs where xs: "map_of dd v = Some (JList xs)" "length xs = n" by blast
  then have "column_data dd n v = xs" by (rule column_data_wellformed)
  then show ?thesis using xs by (auto simp: numeric_raises_objects)
next
  case False
  then have "column_data dd n v = replicate n JNull"
    by (auto simp: column_data_def split: option.splits json.splits)
  with False show ?thesis by auto
qed

lemma build_frame_extracted:
  assumes "py_len dates = Inr n" and "py_slice5 dates = Inr f"
  shows "build_frame lib
           \<lparr>processed = (''date'', dates) #
                map (\<lambda>v. (new_col_name lib u v, JList (column_data dd n v))) VARIABLES,
            new_column_names = ''date'' # map (new_col_name lib u) VARIABLES\<rparr> =
         expected_frame lib u dd n dates"
proof -
  let ?nm = "new_col_name lib u"
  let ?df0 = "(''date'', broadcast n dates) # map (\<lambda>v. (?nm v, map Obj (column_data dd n v))) VARIABLES"
  let ?names = "''date'' # map ?nm VARIABLES"
  let ?df1 = "(''date'', broadcast n dates) #
      map (\<lambda>v. (?nm v, numeric_cells lib (map Obj (column_data dd n v)))) VARIABLES"
  let ?raises = "\<exists>v \<in> set VARIABLES. numeric_raises lib (map Obj (column_data dd n v))"
  have ne: "VARIABLES \<noteq> []" by (simp add: VARIABLES_def)
  have frame: "DataFrame ((''date'', dates) # map (\<lambda>v. (?nm v, JList (column_data dd n v))) VARIABLES) = Some ?df0"
    using assms ne by (rule DataFrame_processed) (simp add: length_column_data)
  have keys: "map fst ?df0 = ?names" by (simp add: comp_def)
  have not_date: "new_col_name lib u v \<noteq> ''date''" if "v \<in> set VARIABLES" for v
    using new_col_name_prefix [of v lib u] VARIABLES_not_date [OF that] by auto
  have "convert_columns lib ?names ?df0 =
       (if \<exists>kc \<in> set ?df0. fst kc \<in> set ?names \<and> fst kc \<noteq> ''date'' \<and> numeric_raises lib (snd kc)
        then None
        else Some (map (\<lambda>(k, c). (k, if k \<in> set ?names \<and> k \<noteq> ''date'' then numeric_cells lib c else c))
                     ?df0))"
  proof (rule convert_columns_distinct)
    show "distinct ?names" by (rule distinct_column_names)
    show "distinct (map fst ?df0)" unfolding keys by (rule distinct_column_names)
    show "set ?names \<subseteq> insert ''date'' (fst ` set ?df0)"
      unfolding set_map [symmetric] keys by auto
  qed
  moreover have "map (\<lambda>(k, c). (k, if k \<in> set ?names \<and> k \<noteq> ''date'' then numeric_cells lib c else c)) ?df0
      = ?df1"
    using not_date by auto
  moreover have "(\<exists>kc \<in> set ?df0. fst kc \<in> set ?names \<and> fst kc \<noteq> ''date'' \<and>
      numeric_raises lib (snd kc)) \<longleftrightarrow> ?raises"
    using not_date by auto
  ultimately have conv: "convert_columns lib ?names ?df0 = (if ?raises then None else Some ?df1)"
    by simp
  show ?thesis
  proof (cases ?raises)
    case True
    then have "convert_columns lib ?names ?df0 = None" by (simp only: conv if_True)
    then have "build_frame lib \<lparr>processed = (''date'', dates) #
                  map (\<lambda>v. (?nm v, JList (column_data dd n v))) VARIABLES,
              new_column_names = ?names\<rparr> = None"
      by (simp only: build_frame_def loop_state.simps frame option.case)
    with True show ?thesis by (simp add: expected_frame_def)
  next
    case False
    then have "convert_columns lib ?names ?df0 = Some ?df1" by (simp only: conv if_False)
    then have "build_frame lib \<lparr>processed = (''date'', dates) #
                  map (\<lambda>v. (?nm v, JList (column_data dd n v))) VARIABLES,
              new_column_names = ?names\<rparr> =
          (case map_of ?df1 ''date'' of
             None \<Rightarrow> None
           | Some col \<Rightarrow>
               (case to_datetime lib col of
                  None \<Rightarrow> None
                | Some dates' \<Rightarrow> Some (AList.update ''date'' dates' ?df1)))"
      by (simp only: build_frame_def loop_state.simps frame option.case)
    with False show ?thesis
      by (simp add: expected_frame_def split: option.splits)
  qed
qed

lemma process_weather_data_frame:
  assumes "map_of d ''daily'' = Some (JDict dd)"
    and "map_of d ''daily_units'' = Some (JDict u)"
    and "map_of dd ''time'' = Some dates"
    and "py_len dates = Inr n" and "py_slice5 dates = Inr f"
  shows "snd (process_weather_data lib (JDict d)) = Return (expected_frame lib u dd n dates)"
proof -
  let ?st0 = "\<lparr>processed = [(''date'', dates)], new_column_names = [''date'']\<rparr>"
  obtain l r where lr: "extract_variables lib (JDict u) dd n VARIABLES ?st0 = (l, r)"
    by (cases "extract_variables lib (JDict u) dd n VARIABLES ?st0")
  have "distinct (map fst [(''date'', dates)] @ map (new_col_name lib u) VARIABLES)"
    using distinct_column_names [of lib u] by simp
  then have "fold (\<lambda>v. AList.update (new_col_name lib u v) (JList (column_data dd n v))) VARIABLES [(''date'', dates)]
      = [(''date'', dates)] @ map (\<lambda>v. (new_col_name lib u v, JList (column_data dd n v))) VARIABLES"
    by (rule fold_update_fresh)
  with extract_variables_units [of lib u dd n VARIABLES ?st0] lr
  have r: "r = Return \<lparr>processed = (''date'', dates) #
                map (\<lambda>v. (new_col_name lib u v, JList (column_data dd n v))) VARIABLES,
            new_column_names = ''date'' # map (new_col_name lib u) VARIABLES\<rparr>"
    by simp
  show ?thesis
    using assms
    by (simp add: process_weather_data_def Let_def lr r build_frame_extracted [OF assms(4,5)]
             split: option.splits)
qed

lemma frame_of_list:
  assumes "map_of d ''daily'' = Some (JDict dd)"
    and "map_of d ''daily_units'' = Some (JDict u)"
    and "map_of dd ''time'' = Some (JList ts)"
  shows "snd (process_weather_data lib (JDict d)) =
           Return (expected_frame lib u dd (length ts) (JList ts))"
  using assms by (rule process_weather_data_frame) simp_all

lemma process_weather_data_not_dict:
  "py_type data \<noteq> TDict \<Longrightarrow> snd (process_weather_data lib data) = Return None"
  by (cases data) (simp_all add: process_weather_data_def)

lemma process_weather_data_SomeE:
  assumes "snd (process_weather_data lib data) = Return (Some df)"
  obtains d dd u dates n f where
    "data = JDict d" and "map_of d ''daily'' = Some (JDict dd)"
    and "map_of d ''daily_units'' = Some (JDict u)" and "map_of dd ''time'' = Some dates"
    and "py_len dates = Inr n" and "py_slice5 dates = Inr f"
    and "expected_frame lib u dd n dates = Some df"
proof -
  obtain d where d: "data = JDict d"
    using assms process_weather_data_not_dict [of data lib] by (cases data) auto
  obtain daily where daily: "map_of d ''daily'' = Some daily"
    using assms unfolding d process_weather_data_def
    by (cases "map_of d ''daily''") (auto simp: Let_def)
  obtain units where units: "map_of d ''daily_units'' = Some units"
    using assms unfolding d process_weather_data_def
    by (cases "map_of d ''daily_units''") (auto simp: daily Let_def)
  obtain dd where dd: "daily = JDict dd"
    using assms unfolding d process_weather_data_def
    by (cases daily) (auto simp: daily units)
  obtain dates where dates: "map_of dd ''time'' = Some dates"
    using assms unfolding d process_weather_data_def
    by (cases "map_of dd ''time''") (auto simp: daily units dd Let_def)
  obtain n where n: "py_len dates = Inr n"
    using assms unfolding d process_weather_data_def
    by (cases "py_len dates") (auto simp: daily units dd dates Let_def)
  obtain f where f: "py_slice5 dates = Inr f"
    using assms unfolding d process_weather_data_def
    by (cases "py_slice5 dates") (auto simp: daily units dd dates n Let_def)
  have ne: "\<exists>v vs. VARIABLES = v # vs" by (simp add: VARIABLES_def)
  obtain u where u: "units = JDict u"
  proof (cases "py_type units = TDict")
    case True
    then show ?thesis using that by (cases units) auto
  next
    case False
    from ne obtain v vs where vs: "VARIABLES = v # vs" by blast
    have "extract_variables lib units dd n VARIABLES st = ([], Raise AttributeError)" for st
      unfolding vs using False by (rule extract_variables_not_dict)
    with assms show ?thesis unfolding d process_weather_data_def
      by (simp add: daily units dd dates n f Let_def)
  qed
  have "snd (process_weather_data lib (JDict d)) = Return (expected_frame lib u dd n dates)"
    using daily units dates n f unfolding dd u by (rule process_weather_data_frame)
  with assms have "expected_frame lib u dd n dates = Some df" by (simp add: d)
  with d daily units dates n f show ?thesis using that unfolding dd u by blast
qed

lemma map_of_map_inj:
  "inj_on f (set xs) \<Longrightarrow> v \<in> set xs \<Longrightarrow> map_of (map (\<lambda>v. (f v, g v)) xs) (f v) = Some (g v)"
proof (induction xs)
  case Nil
  then show ?case by simp
next
  case (Cons a xs)
  show ?case
  proof (cases "f v = f a")
    case True
    have "v = a"
      using inj_onD [OF Cons.prems(1) True] Cons.prems(2) by simp
    then show ?thesis by simp
  next
    case False
    with Cons show ?thesis by auto
  qed
qed

lemma expected_frame_SomeD:
  assumes "expected_frame lib u dd n dates = Some df"
  obtains dcol where "to_datetime lib (broadcast n dates) = Some dcol"
    and "df = (''date'', dcol) #
               map (\<lambda>v. (new_col_name lib u v, numeric_cells lib (map Obj (column_data dd n v))))
                 VARIABLES"
    and "\<forall>v \<in> set VARIABLES. \<not> numeric_raises lib (map Obj (column_data dd n v))"
  using assms by (auto simp: expected_frame_def split: option.splits if_splits)

lemma expected_frame_names:
  "expected_frame lib u dd n dates = Some df \<Longrightarrow>
     map fst df = ''date'' # map (new_col_name lib u) VARIABLES"
  by (erule expected_frame_SomeD) (simp add: comp_def)

lemma expected_frame_column:
  assumes "expected_frame lib u dd n dates = Some df" and "v \<in> set VARIABLES"
  shows "map_of df (new_col_name lib u v) = Some (numeric_cells lib (map Obj (column_data dd n v)))"
proof -
  from assms(1) obtain dcol where
    df: "df = (''date'', dcol) #
               map (\<lambda>v. (new_col_name lib u v, numeric_cells lib (map Obj (column_data dd n v))))
                 VARIABLES"
    by (rule expected_frame_SomeD)
  show ?thesis
    unfolding df using new_col_name_not_date [OF assms(2), of lib u]
      map_of_map_inj [OF inj_on_new_col_name assms(2), of lib u]
    by simp
qed

lemma expected_frame_date:
  assumes "expected_frame lib u dd n dates = Some df"
  shows "\<exists>dcol. to_datetime lib (broadcast n dates) = Some dcol \<and> map_of df ''date'' = Some dcol"
  using assms by (auto elim!: expected_frame_SomeD)

lemma expected_frame_None_iff:
  "expected_frame lib u dd n (JList ts) = None \<longleftrightarrow>
     (\<exists>v \<in> set VARIABLES. numeric_raises lib (map Obj (column_data dd n v))) \<or>
     (\<exists>t \<in> set ts. to_datetime1 lib (Obj t) = Invalid)"
  by (auto simp: expected_frame_def to_datetime_def split: option.splits)

lemma length_broadcast:
  "py_len dates = Inr n \<Longrightarrow> py_slice5 dates = Inr f \<Longrightarrow> length (broadcast n dates) = n"
  by (cases dates) simp_all

lemma returned_frame_rectangular:
  assumes "snd (process_weather_data lib data) = Return (Some df)"
  shows "\<forall>c \<in> set df. length (snd c) = nrows df"
proof -
  from assms obtain u dd dates n f where len: "py_len dates = Inr n" "py_slice5 dates = Inr f"
    and df: "expected_frame lib u dd n dates = Some df"
    by (auto elim: process_weather_data_SomeE)
  from df obtain dcol where dcol: "to_datetime lib (broadcast n dates) = Some dcol"
    and shape: "df = (''date'', dcol) #
       map (\<lambda>v. (new_col_name lib u v, numeric_cells lib (map Obj (column_data dd n v)))) VARIABLES"
    by (rule expected_frame_SomeD)
  have "length dcol = n"
    using to_datetime_length [OF dcol] length_broadcast [OF len] by simp
  then show ?thesis
    by (auto simp: shape nrows_def length_column_data)
qed


subsection \<open>Running the model on the samples\<close>

lemma bit_length_0: "bit_length 0 = 0"
  by (simp add: bit_length.simps)

lemma bit_length_pos: "0 < n \<Longrightarrow> bit_length n = Suc (bit_length (n div 2))"
  by (subst bit_length.simps) simp

lemma python_float_exact: "\<bar>n\<bar> \<le> 2 ^ 53 \<Longrightarrow> python_float n = Some (Finite (of_int n))"
  by (simp add: python_float_def)

lemma python_float_overflow: "2 ^ 1024 \<le> \<bar>n\<bar> \<Longrightarrow> python_float n = None"
  by (simp add: python_float_def)

lemma python_float_rounded: "python_float 9007199254740993 = Some (Finite 9007199254740992)"
proof -
  have "bit_length 9007199254740993 = 54"
    by (simp add: bit_length_0 bit_length_pos)
  then have "nearest_float 9007199254740993 = 9007199254740992"
    by (simp add: nearest_float_def)
  then show ?thesis
    by (simp add: python_float_def)
qed

lemmas evaluation =
  process_weather_data_def sample_library_def
  VARIABLES_def extract_variable_def new_col_name_def py_str_def build_frame_def
  DataFrame_def List.map_filter_simps to_numeric_def numeric_raises_def numeric_cells_def
  stored_as_float_def python_float_exact python_float_overflow python_float_rounded
  to_datetime_def Let_def

lemma scenario_result:
  "snd (process_weather_data sample_library scenario) = Return (Some scenario_table)"
  by (simp add: scenario_def scenario_table_def evaluation)

section \<open>The table of a valid response\<close>

text \<open>
  Claim C1, amended. For every response with \<^verbatim>\<open>daily\<close> and \<^verbatim>\<open>daily_units\<close>, where
  \<^verbatim>\<open>daily.time\<close> is a list of N date strings the library parses, every configured variable
  is in \<^verbatim>\<open>daily\<close> as a list of length N that holds no integer beyond the range of floats,
  and \<^verbatim>\<open>daily_units\<close> gives every configured variable a unit string that is not empty, the
  transformer returns a table with exactly N rows (in every column) and the columns
  \<^verbatim>\<open>date\<close> and then, in the configured order, one column per variable named
  \<^verbatim>\<open>"<variable> (<unit>)"\<close>.
\<close>

theorem valid_response_table:
  assumes daily: "map_of d ''daily'' = Some (JDict daily_data)"
    and units: "map_of d ''daily_units'' = Some (JDict units)"
    and time: "map_of daily_data ''time'' = Some (JList ts)"
    and parse: "\<forall>t \<in> set ts. \<exists>s x. t = JStr s \<and> date_of lib (JStr s) = Stamp x"
    and vars: "\<forall>v \<in> set VARIABLES. \<exists>xs. map_of daily_data v = Some (JList xs) \<and> length xs = length ts"
    and floats: "\<forall>v \<in> set VARIABLES. \<forall>xs n. map_of daily_data v = Some (JList xs) \<and> JInt n \<in> set xs \<longrightarrow>
                   float_of_int lib n \<noteq> None"
    and unit: "\<forall>v \<in> set VARIABLES. map_of units v = Some (JStr (unit v)) \<and> unit v \<noteq> []"
  shows "\<exists>df. snd (process_weather_data lib (JDict d)) = Return (Some df) \<and>
              nrows df = length ts \<and>
              (\<forall>c \<in> set df. length (snd c) = length ts) \<and>
              map fst df = ''date'' # map (\<lambda>v. v @ '' ('' @ unit v @ '')'') VARIABLES"
proof -
  let ?n = "length ts"
  have "\<forall>t \<in> set ts. to_datetime1 lib (Obj t) \<noteq> Invalid"
    using parse by fastforce
  moreover have "\<forall>v \<in> set VARIABLES. \<not> numeric_raises lib (map Obj (column_data daily_data ?n v))"
    using floats by (auto simp: numeric_raises_column_data)
  ultimately have "expected_frame lib units daily_data ?n (JList ts) \<noteq> None"
    by (simp add: expected_frame_None_iff)
  then obtain df where df: "expected_frame lib units daily_data ?n (JList ts) = Some df"
    by blast
  then obtain dcol where dcol: "to_datetime lib (broadcast ?n (JList ts)) = Some dcol"
    and shape: "df = (''date'', dcol) #
       map (\<lambda>v. (new_col_name lib units v, numeric_cells lib (map Obj (column_data daily_data ?n v))))
         VARIABLES"
    by (rule expected_frame_SomeD)
  have len: "length dcol = ?n"
    using to_datetime_length [OF dcol] by simp
  have names: "new_col_name lib units v = v @ '' ('' @ unit v @ '')''" if "v \<in> set VARIABLES" for v
    using unit that by (simp add: new_col_name_def py_str_def)
  have res: "snd (process_weather_data lib (JDict d)) = Return (Some df)"
    using frame_of_list [OF daily units time] df by simp
  have rows: "nrows df = ?n"
    by (simp add: shape nrows_def len)
  have cols: "\<forall>c \<in> set df. length (snd c) = ?n"
    by (auto simp: shape len length_column_data)
  have hdr: "map fst df = ''date'' # map (\<lambda>v. v @ '' ('' @ unit v @ '')'') VARIABLES"
    by (simp add: shape comp_def names cong: map_cong)
  from res rows cols hdr show ?thesis by (intro exI [of _ df] conjI)
qed

theorem valid_response_table_witness:
  "\<exists>df. snd (process_weather_data sample_library full_response) = Return (Some df) \<and>
         nrows df = 2 \<and>
         map fst df = ''date'' # map (\<lambda>v. v @ '' (mm)'') VARIABLES"
proof -
  let ?daily = "(''time'', JList [JStr ''2024-01-01'', JStr ''2024-01-02'']) #
                    map (\<lambda>v. (v, JList [JInt 3, JFloat (Finite (1 / 2))])) VARIABLES"
  let ?units = "map (\<lambda>v. (v, JStr ''mm'')) VARIABLES"
  let ?d = "[(''daily'', JDict ?daily), (''daily_units'', JDict ?units)]"
  let ?ts = "[JStr ''2024-01-01'', JStr ''2024-01-02'']"
  have 1: "map_of ?d ''daily'' = Some (JDict ?daily)" by simp
  have 2: "map_of ?d ''daily_units'' = Some (JDict ?units)" by simp
  have 3: "map_of ?daily ''time'' = Some (JList ?ts)" by simp
  have 4: "\<forall>t \<in> set ?ts. \<exists>s x. t = JStr s \<and> date_of sample_library (JStr s) = Stamp x"
    by (simp add: sample_library_def)
  have 5: "\<forall>v \<in> set VARIABLES. \<exists>xs. map_of ?daily v = Some (JList xs) \<and> length xs = length ?ts"
    by (simp add: VARIABLES_def)
  have 6: "\<forall>v \<in> set VARIABLES. \<forall>xs n. map_of ?daily v = Some (JList xs) \<and> JInt n \<in> set xs \<longrightarrow>
             float_of_int sample_library n \<noteq> None"
    by (auto simp: VARIABLES_def sample_library_def python_float_exact)
  have 7: "\<forall>v \<in> set VARIABLES. map_of ?units v = Some (JStr ((\<lambda>v. ''mm'') v)) \<and> (\<lambda>v. ''mm'') v \<noteq> []"
    by (simp add: VARIABLES_def)
  show ?thesis
    using valid_response_table [OF 1 2 3 4 5 6 7] by (clarsimp simp: full_response_def)
qed

text \<open>
  Claim C1 as stated fails twice. With \<^verbatim>\<open>""\<close> as the unit of \<^verbatim>\<open>temperature_2m_mean\<close> in an
  otherwise valid response of one day, the test \<^verbatim>\<open>if unit_str:\<close> of line 111 is false and
  the column is named \<^verbatim>\<open>temperature_2m_mean\<close>, not \<^verbatim>\<open>temperature_2m_mean ()\<close>. And with the
  integer \<open>10 ^ 400\<close> as the one value of \<^verbatim>\<open>precipitation_sum\<close> in a valid response of one
  day, the numeric conversion of line 137 raises and the transformer returns \<^verbatim>\<open>None\<close>.
\<close>

theorem valid_response_without_table:
  "snd (process_weather_data sample_library empty_unit_response) =
     Return (Some
       [(''date'', [Timestamp 1704067200000000000]),
        (''temperature_2m_mean'', [Number (Finite 3)]),
        (''relative_humidity_2m_mean (mm)'', [Number (Finite 3)]),
        (''wind_speed_10m_mean (mm)'', [Number (Finite 3)]),
        (''cloud_cover_mean (mm)'', [Number (Finite 3)]),
        (''precipitation_sum (mm)'', [Number (Finite 3)]),
        (''shortwave_radiation_sum (mm)'', [Number (Finite 3)]),
        (''apparent_temperature_mean (mm)'', [Number (Finite 3)]),
        (''dew_point_2m_mean (mm)'', [Number (Finite 3)])]) \<and>
   snd (process_weather_data sample_library huge_int_response) = Return None"
  by (simp add: empty_unit_response_def huge_int_response_def evaluation)

section \<open>Missing and malformed variables\<close>

text \<open>
  Claim C2, amended. For every response that passes the structural checks, whose
  \<^verbatim>\<open>daily_units\<close> is a mapping, whose \<^verbatim>\<open>time\<close> is a list of N entries the date conversion
  accepts and whose variables that are lists of length N hold no integer beyond the range
  of floats, and every configured variable that is absent from \<^verbatim>\<open>daily\<close>, or is not a list,
  or is a list whose length is not N: the transformer returns a table, that variable's
  column holds N missing-value markers, and the column of every other configured variable
  that is a list of length N is the numeric conversion of that list alone.
\<close>

theorem degraded_variable_column:
  assumes daily: "map_of d ''daily'' = Some (JDict daily_data)"
    and units: "map_of d ''daily_units'' = Some (JDict units)"
    and time: "map_of daily_data ''time'' = Some (JList ts)"
    and dates: "\<forall>t \<in> set ts. to_datetime1 lib (Obj t) \<noteq> Invalid"
    and floats: "\<forall>w \<in> set VARIABLES. \<forall>xs n. map_of daily_data w = Some (JList xs) \<and>
                   length xs = length ts \<and> JInt n \<in> set xs \<longrightarrow> float_of_int lib n \<noteq> None"
    and var: "var \<in> set VARIABLES"
    and degraded: "map_of daily_data var = None \<or>
                   (\<exists>x. map_of daily_data var = Some x \<and> py_type x \<noteq> TList) \<or>
                   (\<exists>xs. map_of daily_data var = Some (JList xs) \<and> length xs \<noteq> length ts)"
  shows "\<exists>df. snd (process_weather_data lib (JDict d)) = Return (Some df) \<and>
              map_of df (new_col_name lib units var) = Some (replicate (length ts) (Number NaN)) \<and>
              (\<forall>w \<in> set VARIABLES. \<forall>xs. w \<noteq> var \<and> map_of daily_data w = Some (JList xs) \<and>
                   length xs = length ts \<longrightarrow>
                 map_of df (new_col_name lib units w) = Some (numeric_cells lib (map Obj xs)))"
proof -
  let ?n = "length ts"
  have "\<forall>v \<in> set VARIABLES. \<not> numeric_raises lib (map Obj (column_data daily_data ?n v))"
    using floats by (auto simp: numeric_raises_column_data)
  then have "expected_frame lib units daily_data ?n (JList ts) \<noteq> None"
    using dates by (simp add: expected_frame_None_iff)
  then obtain df where df: "expected_frame lib units daily_data ?n (JList ts) = Some df"
    by blast
  have "snd (process_weather_data lib (JDict d)) = Return (Some df)"
    using frame_of_list [OF daily units time] df by simp
  moreover have "map_of df (new_col_name lib units var) = Some (replicate ?n (Number NaN))"
    using expected_frame_column [OF df var] column_data_degraded [OF degraded]
    by simp
  moreover have "map_of df (new_col_name lib units w) = Some (numeric_cells lib (map Obj xs))"
    if "w \<in> set VARIABLES" and "map_of daily_data w = Some (JList xs)" and "length xs = ?n" for w xs
    using expected_frame_column [OF df that(1)] column_data_wellformed [OF that(2,3)]
    by simp
  ultimately show ?thesis by blast
qed

theorem degraded_variable_column_witness:
  "\<exists>df. snd (process_weather_data sample_library scenario) = Return (Some df) \<and>
         map_of df ''precipitation_sum'' = Some [Number NaN, Number NaN] \<and>
         map_of df (''temperature_2m_mean ('' @ [CHR 0xB0, CHR ''C''] @ '')'') =
           Some [Number (Finite 1), Number (Finite 2)]"
proof -
  let ?daily = "[(''time'', JList [JStr ''2024-01-01'', JStr ''2024-01-02'']),
                 (''temperature_2m_mean'', JList [JFloat (Finite 1), JFloat (Finite 2)])]"
  let ?units = "[(''temperature_2m_mean'', JStr [CHR 0xB0, CHR ''C''])]"
  let ?d = "[(''daily'', JDict ?daily), (''daily_units'', JDict ?units)]"
  let ?ts = "[JStr ''2024-01-01'', JStr ''2024-01-02'']"
  have 1: "map_of ?d ''daily'' = Some (JDict ?daily)" by simp
  have 2: "map_of ?d ''daily_units'' = Some (JDict ?units)" by simp
  have 3: "map_of ?daily ''time'' = Some (JList ?ts)" by simp
  have 4: "\<forall>t \<in> set ?ts. to_datetime1 sample_library (Obj t) \<noteq> Invalid"
    by (simp add: sample_library_def)
  have 5: "\<forall>w \<in> set VARIABLES. \<forall>xs n. map_of ?daily w = Some (JList xs) \<and>
             length xs = length ?ts \<and> JInt n \<in> set xs \<longrightarrow> float_of_int sample_library n \<noteq> None"
    by (auto simp: VARIABLES_def)
  have 6: "''precipitation_sum'' \<in> set VARIABLES" by (simp add: VARIABLES_def)
  have 7: "map_of ?daily ''precipitation_sum'' = None \<or>
           (\<exists>x. map_of ?daily ''precipitation_sum'' = Some x \<and> py_type x \<noteq> TList) \<or>
           (\<exists>xs. map_of ?daily ''precipitation_sum'' = Some (JList xs) \<and> length xs \<noteq> length ?ts)"
    by simp
  show ?thesis
    using degraded_variable_column [OF 1 2 3 4 5 6 7]
    by (simp add: scenario_def VARIABLES_def new_col_name_def py_str_def numeric_cells_def)
qed

text \<open>
  Claim C2 as stated fails: a response can pass the structural checks, lack a variable, and
  still make the transformer return no table, because an entry of \<^verbatim>\<open>time\<close> does not parse,
  or because another variable holds an integer beyond the range of floats.
\<close>

theorem degraded_variable_without_table:
  "map_of [(''time'', JList [JStr ''not a date''])] ''time'' = Some (JList [JStr ''not a date'']) \<and>
   map_of [(''time'', JList [JStr ''not a date''])] ''temperature_2m_mean'' = None \<and>
   snd (process_weather_data sample_library unparseable_date_response) = Return None \<and>
   map_of [(''time'', JList [JStr ''2024-01-01'']), (''precipitation_sum'', JList [JInt (10 ^ 400)])]
     ''temperature_2m_mean'' = None \<and>
   snd (process_weather_data sample_library huge_int_only_response) = Return None"
  by (simp add: unparseable_date_response_def huge_int_only_response_def evaluation)

section \<open>Structural failures\<close>

text \<open>
  Claim C3. A payload that is not a mapping, a mapping without \<^verbatim>\<open>daily\<close> or without
  \<^verbatim>\<open>daily_units\<close>, and a payload whose \<^verbatim>\<open>daily\<close> is a mapping without \<^verbatim>\<open>time\<close> make the
  transformer return \<^verbatim>\<open>None\<close>; a top-level list is rejected with the two error entries of
  lines 81 and 83 and nothing is raised. But a \<^verbatim>\<open>daily\<close> that is not a mapping, which has no
  \<^verbatim>\<open>time\<close> key either, never reaches the check of line 96: beside a \<^verbatim>\<open>daily_units\<close> entry,
  the debug entry of line 93 calls \<^verbatim>\<open>daily_data.keys()\<close> and raises \<^verbatim>\<open>AttributeError\<close> after
  the first log entry, where the claim has the transformer return its failure signal.
\<close>

theorem structural_failure:
  "(py_type data \<noteq> TDict \<longrightarrow> snd (process_weather_data lib data) = Return None) \<and>
   (map_of d ''daily'' = None \<or> map_of d ''daily_units'' = None \<longrightarrow>
      snd (process_weather_data lib (JDict d)) = Return None) \<and>
   (map_of d ''daily'' = Some (JDict daily_data) \<and> map_of d ''daily_units'' = Some units \<and>
    map_of daily_data ''time'' = None \<longrightarrow>
      snd (process_weather_data lib (JDict d)) = Return None) \<and>
   (map_of d ''daily'' = Some daily \<and> py_type daily \<noteq> TDict \<and> map_of d ''daily_units'' = Some units \<longrightarrow>
      process_weather_data lib (JDict d) = ([(DEBUG, RawTypeReceived TDict)], Raise AttributeError)) \<and>
   process_weather_data lib (JList xs) =
     ([(DEBUG, RawTypeReceived TList), (ERROR, NotADictionary TList), (ERROR, ReturnedAList)],
      Return None)"
proof (intro conjI impI)
  assume "py_type data \<noteq> TDict"
  then show "snd (process_weather_data lib data) = Return None"
    by (rule process_weather_data_not_dict)
next
  assume "map_of d ''daily'' = None \<or> map_of d ''daily_units'' = None"
  then show "snd (process_weather_data lib (JDict d)) = Return None"
    by (cases "map_of d ''daily''") (auto simp: process_weather_data_def Let_def)
next
  assume "map_of d ''daily'' = Some (JDict daily_data) \<and> map_of d ''daily_units'' = Some units \<and>
    map_of daily_data ''time'' = None"
  then show "snd (process_weather_data lib (JDict d)) = Return None"
    by (simp add: process_weather_data_def)
next
  assume "map_of d ''daily'' = Some daily \<and> py_type daily \<noteq> TDict \<and>
    map_of d ''daily_units'' = Some units"
  then show "process_weather_data lib (JDict d) =
      ([(DEBUG, RawTypeReceived TDict)], Raise AttributeError)"
    by (cases daily) (simp_all add: process_weather_data_def)
next
  show "process_weather_data lib (JList xs) =
     ([(DEBUG, RawTypeReceived TList), (ERROR, NotADictionary TList), (ERROR, ReturnedAList)],
      Return None)"
    by (simp add: process_weather_data_def)
qed

theorem structural_failure_witness:
  "py_type (JStr ''oops'') \<noteq> TDict \<and>
   snd (process_weather_data sample_library (JStr ''oops'')) = Return None \<and>
   map_of [(''daily'', JDict [])] ''daily_units'' = None \<and>
   snd (process_weather_data sample_library (JDict [(''daily'', JDict [])])) = Return None \<and>
   map_of [(''temperature_2m_mean'', JList [JInt 1])] ''time'' = None \<and>
   snd (process_weather_data sample_library
          (JDict [(''daily'', JDict [(''temperature_2m_mean'', JList [JInt 1])]),
                  (''daily_units'', JDict [])])) = Return None \<and>
   py_type (JList []) \<noteq> TDict \<and>
   process_weather_data sample_library daily_is_a_list_response =
     ([(DEBUG, RawTypeReceived TDict)], Raise AttributeError)"
  using structural_failure [of "JStr ''oops''" sample_library "[(''daily'', JDict [])]"]
    structural_failure [of JNull sample_library
      "[(''daily'', JDict [(''temperature_2m_mean'', JList [JInt 1])]), (''daily_units'', JDict [])]"
      "[(''temperature_2m_mean'', JList [JInt 1])]" "JDict []"]
    structural_failure [of JNull sample_library
      "[(''daily'', JList []), (''daily_units'', JDict [])]" "[]" "JDict []" "JList []"]
  by (simp add: daily_is_a_list_response_def)

section \<open>Display names\<close>

text \<open>
  Claim C4, amended. The display name of a configured variable is
  \<^verbatim>\<open>"<variable> (<unit>)"\<close> when \<^verbatim>\<open>daily_units\<close> has a unit string for it that is not empty,
  and the bare variable name when \<^verbatim>\<open>daily_units\<close> has no entry for it, whatever \<^verbatim>\<open>daily\<close>
  holds; the columns of every returned table are \<^verbatim>\<open>date\<close> and then these names in the
  configured order.
\<close>

theorem column_display_name:
  "(map_of units var = Some (JStr s) \<and> s \<noteq> [] \<longrightarrow>
      new_col_name lib units var = var @ '' ('' @ s @ '')'') \<and>
   (map_of units var = None \<longrightarrow> new_col_name lib units var = var) \<and>
   (snd (process_weather_data lib (JDict d)) = Return (Some df) \<and>
    map_of d ''daily_units'' = Some (JDict units) \<longrightarrow>
      map fst df = ''date'' # map (new_col_name lib units) VARIABLES)"
proof (intro conjI impI)
  assume "map_of units var = Some (JStr s) \<and> s \<noteq> []"
  then show "new_col_name lib units var = var @ '' ('' @ s @ '')''"
    by (simp add: new_col_name_def py_str_def)
next
  assume "map_of units var = None"
  then show "new_col_name lib units var = var"
    by (simp add: new_col_name_def)
next
  assume a: "snd (process_weather_data lib (JDict d)) = Return (Some df) \<and>
    map_of d ''daily_units'' = Some (JDict units)"
  then obtain dd u dates n where "map_of d ''daily_units'' = Some (JDict u)"
    and "expected_frame lib u dd n dates = Some df"
    by (auto elim: process_weather_data_SomeE)
  with a show "map fst df = ''date'' # map (new_col_name lib units) VARIABLES"
    by (simp add: expected_frame_names)
qed

theorem column_display_name_witness:
  "new_col_name sample_library [(''temperature_2m_mean'', JStr [CHR 0xB0, CHR ''C''])]
     ''temperature_2m_mean'' = ''temperature_2m_mean ('' @ [CHR 0xB0, CHR ''C''] @ '')'' \<and>
   new_col_name sample_library [(''temperature_2m_mean'', JStr [CHR 0xB0, CHR ''C''])]
     ''cloud_cover_mean'' = ''cloud_cover_mean'' \<and>
   map fst scenario_table =
     ''date'' # map (new_col_name sample_library [(''temperature_2m_mean'', JStr [CHR 0xB0, CHR ''C''])])
                    VARIABLES"
proof -
  let ?units = "[(''temperature_2m_mean'', JStr [CHR 0xB0, CHR ''C''])]"
  let ?d = "[(''daily'', JDict [(''time'', JList [JStr ''2024-01-01'', JStr ''2024-01-02'']),
                               (''temperature_2m_mean'', JList [JFloat (Finite 1), JFloat (Finite 2)])]),
            (''daily_units'', JDict ?units)]"
  have r: "snd (process_weather_data sample_library (JDict ?d)) = Return (Some scenario_table)"
    using scenario_result by (simp add: scenario_def)
  have u: "map_of ?d ''daily_units'' = Some (JDict ?units)" by simp
  show ?thesis
    using column_display_name [of ?units "''temperature_2m_mean''" "[CHR 0xB0, CHR ''C'']" sample_library ?d scenario_table]
      column_display_name [of ?units "''cloud_cover_mean''" "[]" sample_library ?d scenario_table] r u
    by simp
qed

text \<open>
  Claim C4 as stated fails for the empty unit string, which line 111 treats as no unit.
\<close>

theorem display_name_empty_unit:
  "new_col_name sample_library [(''temperature_2m_mean'', JStr '''')] ''temperature_2m_mean''
     = ''temperature_2m_mean'' \<and>
   new_col_name sample_library [(''temperature_2m_mean'', JStr '''')] ''temperature_2m_mean''
     \<noteq> ''temperature_2m_mean'' @ '' ('' @ '''' @ '')''"
  by (simp add: new_col_name_def)

section \<open>Payloads the transformer does not guard against\<close>

text \<open>
  Claim C5 says the transformer never raises. It does: a \<^verbatim>\<open>daily\<close> that is not a mapping
  raises at line 93 (\<^verbatim>\<open>daily_data.keys()\<close>), a \<^verbatim>\<open>time\<close> without a length raises at line 101
  (\<^verbatim>\<open>len(dates)\<close>), and a \<^verbatim>\<open>daily_units\<close> that is not a mapping raises at line 110
  (\<^verbatim>\<open>daily_units.get\<close>), all outside the \<^verbatim>\<open>try\<close> of line 131.
\<close>

theorem unguarded_shapes_raise:
  "snd (process_weather_data lib (JDict [(''daily'', JList []), (''daily_units'', JDict [])]))
     = Raise AttributeError \<and>
   snd (process_weather_data lib
          (JDict [(''daily'', JDict [(''time'', JInt 5)]), (''daily_units'', JDict [])]))
     = Raise TypeError \<and>
   snd (process_weather_data lib
          (JDict [(''daily'', JDict [(''time'', JList [])]), (''daily_units'', JList [])]))
     = Raise AttributeError"
  by (simp add: process_weather_data_def VARIABLES_def extract_variable_def)

section \<open>The web endpoint\<close>

text \<open>
  What the endpoint answers, case by case: the framework's error page when
  \<^verbatim>\<open>fetch_and_process_forecast\<close> raises, the error body when it returns \<^verbatim>\<open>None\<close> or a table
  without rows, and for a table with rows the error page when row 0 holds \<^verbatim>\<open>NaT\<close> and row 0
  with status 200 otherwise.
\<close>

lemma get_api_weather_cases:
  "get_api_weather lib r =
     (case snd (fetch_and_process_forecast lib r) of
        Raise e \<Rightarrow> (500, ServerErrorPage)
      | Return None \<Rightarrow> (500, ErrorNoData)
      | Return (Some df) \<Rightarrow>
          if nrows df = 0 then (500, ErrorNoData)
          else if NaT \<in> snd ` set (first_row df) then (500, ServerErrorPage)
          else (200, Row (first_row df)))"
  by (force simp: get_api_weather_def weather_def jsonify_def
           split: outcome.splits option.splits)

lemma fetch_failure_endpoint:
  "r = RequestFailed \<or> r = NotJSON \<or> r = NotJSONLegacy \<Longrightarrow>
     get_api_weather lib r = (500, ErrorNoData)"
  by (auto simp: get_api_weather_def weather_def fetch_and_process_forecast_def)

lemma scenario_endpoint:
  "get_api_weather sample_library (Decoded scenario) =
     (200, Row
       [(''date'', Timestamp 1704067200000000000),
        (''temperature_2m_mean ('' @ [CHR 0xB0, CHR ''C''] @ '')'', Number (Finite 1)),
        (''relative_humidity_2m_mean'', Number NaN),
        (''wind_speed_10m_mean'', Number NaN),
        (''cloud_cover_mean'', Number NaN),
        (''precipitation_sum'', Number NaN),
        (''shortwave_radiation_sum'', Number NaN),
        (''apparent_temperature_mean'', Number NaN),
        (''dew_point_2m_mean'', Number NaN)]) \<and>
   get_api_weather sample_library (Decoded no_days_response) = (500, ErrorNoData)"
proof -
  have s: "snd (fetch_and_process_forecast sample_library (Decoded scenario)) = Return (Some scenario_table)"
    using scenario_result by (simp add: fetch_and_process_forecast_def scenario_def case_prod_unfold)
  have z: "snd (fetch_and_process_forecast sample_library (Decoded no_days_response)) =
      Return (Some ((''date'', []) # map (\<lambda>v. (v, [])) VARIABLES))"
    by (simp add: fetch_and_process_forecast_def no_days_response_def evaluation)
  show ?thesis
    unfolding get_api_weather_cases s z
    by (simp add: scenario_table_def nrows_def first_row_def)
qed

text \<open>
  Claim C6 says that in every case without a table of at least one row the endpoint answers
  with the body \<^verbatim>\<open>{"error": "No data"}\<close>, and with row 0 otherwise. The handler catches
  nothing, so when the transformer raises, as it does at line 93 for a \<^verbatim>\<open>daily\<close> that is a
  list, the answer is the framework's error page instead of that body; and for a table whose
  row 0 holds \<^verbatim>\<open>NaT\<close>, as for a \<^verbatim>\<open>None\<close> in \<^verbatim>\<open>time\<close>, \<^verbatim>\<open>jsonify\<close> raises and the answer is that
  page again, with status 500, instead of row 0.
\<close>

theorem endpoint_error_page:
  "snd (fetch_and_process_forecast lib (Decoded daily_is_a_list_response)) = Raise AttributeError \<and>
   get_api_weather lib (Decoded daily_is_a_list_response) = (500, ServerErrorPage) \<and>
   snd (fetch_and_process_forecast sample_library (Decoded null_date_response)) =
     Return (Some
       [(''date'', [NaT]),
        (''temperature_2m_mean'', [Number NaN]),
        (''relative_humidity_2m_mean'', [Number NaN]),
        (''wind_speed_10m_mean'', [Number NaN]),
        (''cloud_cover_mean'', [Number NaN]),
        (''precipitation_sum'', [Number NaN]),
        (''shortwave_radiation_sum'', [Number NaN]),
        (''apparent_temperature_mean'', [Number NaN]),
        (''dew_point_2m_mean'', [Number NaN])]) \<and>
   get_api_weather sample_library (Decoded null_date_response) = (500, ServerErrorPage)"
proof -
  have a: "snd (fetch_and_process_forecast lib (Decoded daily_is_a_list_response)) =
      Raise AttributeError"
    by (simp add: fetch_and_process_forecast_def daily_is_a_list_response_def
          process_weather_data_def)
  have b: "snd (fetch_and_process_forecast sample_library (Decoded null_date_response)) =
     Return (Some
       [(''date'', [NaT]),
        (''temperature_2m_mean'', [Number NaN]),
        (''relative_humidity_2m_mean'', [Number NaN]),
        (''wind_speed_10m_mean'', [Number NaN]),
        (''cloud_cover_mean'', [Number NaN]),
        (''precipitation_sum'', [Number NaN]),
        (''shortwave_radiation_sum'', [Number NaN]),
        (''apparent_temperature_mean'', [Number NaN]),
        (''dew_point_2m_mean'', [Number NaN])])"
    by (simp add: fetch_and_process_forecast_def null_date_response_def evaluation)
  have "get_api_weather lib (Decoded daily_is_a_list_response) = (500, ServerErrorPage)"
    by (simp add: get_api_weather_def weather_def a)
  moreover have "get_api_weather sample_library (Decoded null_date_response) = (500, ServerErrorPage)"
    by (simp add: get_api_weather_def weather_def b nrows_def first_row_def jsonify_def)
  ultimately show ?thesis using a b by simp
qed

section \<open>Numeric coercion\<close>




section \<open>The date column\<close>

text \<open>
  Claim C8, amended. For a payload that reaches the construction of the table with a list
  as \<^verbatim>\<open>time\<close>: if the date conversion rejects any entry of \<^verbatim>\<open>time\<close>, the transformer returns
  \<^verbatim>\<open>None\<close>; and in every returned table the \<^verbatim>\<open>date\<close> column has one cell per entry of
  \<^verbatim>\<open>time\<close>, the timestamp the entry converts to, or \<^verbatim>\<open>NaT\<close> where the conversion reads the
  entry as missing, as it does \<^verbatim>\<open>None\<close>.
\<close>

theorem date_column:
  assumes daily: "map_of d ''daily'' = Some (JDict daily_data)"
    and units: "map_of d ''daily_units'' = Some (JDict units)"
    and time: "map_of daily_data ''time'' = Some (JList ts)"
  shows "((\<exists>t \<in> set ts. to_datetime1 lib (Obj t) = Invalid) \<longrightarrow>
            snd (process_weather_data lib (JDict d)) = Return None) \<and>
         (\<forall>df. snd (process_weather_data lib (JDict d)) = Return (Some df) \<longrightarrow>
            (\<exists>col. map_of df ''date'' = Some col \<and> length col = length ts \<and>
               (\<forall>i < length ts.
                  (case to_datetime1 lib (Obj (ts ! i)) of
                     Stamp x \<Rightarrow> col ! i = Timestamp x
                   | Missing \<Rightarrow> col ! i = NaT
                   | Invalid \<Rightarrow> False))))"
proof (intro conjI impI allI)
  assume "\<exists>t \<in> set ts. to_datetime1 lib (Obj t) = Invalid"
  then have "expected_frame lib units daily_data (length ts) (JList ts) = None"
    by (simp add: expected_frame_None_iff)
  then show "snd (process_weather_data lib (JDict d)) = Return None"
    using frame_of_list [OF daily units time, of lib] by simp
next
  fix df assume "snd (process_weather_data lib (JDict d)) = Return (Some df)"
  then have df: "expected_frame lib units daily_data (length ts) (JList ts) = Some df"
    using frame_of_list [OF daily units time, of lib] by simp
  then obtain dcol where dcol: "to_datetime lib (broadcast (length ts) (JList ts)) = Some dcol"
    and col: "map_of df ''date'' = Some dcol"
    using expected_frame_date by blast
  from dcol have ok: "\<forall>t \<in> set ts. to_datetime1 lib (Obj t) \<noteq> Invalid"
    and eq: "dcol = map (date_cell \<circ> to_datetime1 lib) (map Obj ts)"
    by (auto simp: to_datetime_def split: if_splits)
  have "case to_datetime1 lib (Obj (ts ! i)) of
          Stamp x \<Rightarrow> dcol ! i = Timestamp x | Missing \<Rightarrow> dcol ! i = NaT | Invalid \<Rightarrow> False"
    if "i < length ts" for i
    using ok that by (auto simp: eq split: dateconv.splits)
  then have "\<forall>i < length ts.
           (case to_datetime1 lib (Obj (ts ! i)) of
              Stamp x \<Rightarrow> dcol ! i = Timestamp x | Missing \<Rightarrow> dcol ! i = NaT | Invalid \<Rightarrow> False)"
    by blast
  moreover have "length dcol = length ts" by (simp add: eq)
  ultimately show "\<exists>col. map_of df ''date'' = Some col \<and> length col = length ts \<and>
               (\<forall>i < length ts.
                  (case to_datetime1 lib (Obj (ts ! i)) of
                     Stamp x \<Rightarrow> col ! i = Timestamp x
                   | Missing \<Rightarrow> col ! i = NaT
                   | Invalid \<Rightarrow> False))"
    using col by (intro exI [of _ dcol] conjI)
qed

theorem date_column_witness:
  "snd (process_weather_data sample_library unparseable_date_response) = Return None \<and>
   (\<exists>df. snd (process_weather_data sample_library mixed_values_response) = Return (Some df) \<and>
         map_of df ''date'' = Some [Timestamp 1704067200000000000, NaT])"
proof -
  let ?bad = "[(''time'', JList [JStr ''not a date''])]"
  let ?d1 = "[(''daily'', JDict ?bad), (''daily_units'', JDict [])]"
  let ?daily = "[(''time'', JList [JStr ''2024-01-01'', JNull]),
                 (''cloud_cover_mean'', JList [JStr ''1.5'', JStr ''n/a''])]"
  let ?d2 = "[(''daily'', JDict ?daily), (''daily_units'', JDict [])]"
  have a1: "map_of ?d1 ''daily'' = Some (JDict ?bad)" by simp
  have a2: "map_of ?d1 ''daily_units'' = Some (JDict [])" by simp
  have a3: "map_of ?bad ''time'' = Some (JList [JStr ''not a date''])" by simp
  have a4: "\<exists>t \<in> set [JStr ''not a date'']. to_datetime1 sample_library (Obj t) = Invalid"
    by (simp add: sample_library_def)
  have b1: "map_of ?d2 ''daily'' = Some (JDict ?daily)" by simp
  have b2: "map_of ?d2 ''daily_units'' = Some (JDict [])" by simp
  have b3: "map_of ?daily ''time'' = Some (JList [JStr ''2024-01-01'', JNull])" by simp
  have b4: "\<exists>df. snd (process_weather_data sample_library (JDict ?d2)) = Return (Some df)"
    by (simp add: evaluation)
  have "snd (process_weather_data sample_library (JDict ?d1)) = Return None"
    using date_column [OF a1 a2 a3, of sample_library] a4 by blast
  moreover have "\<exists>df. snd (process_weather_data sample_library (JDict ?d2)) = Return (Some df) \<and>
         map_of df ''date'' = Some [Timestamp 1704067200000000000, NaT]"
  proof -
    from b4 obtain df where df: "snd (process_weather_data sample_library (JDict ?d2)) = Return (Some df)"
      by blast
    with date_column [OF b1 b2 b3, of sample_library] obtain col where
      col: "map_of df ''date'' = Some col" and len: "length col = 2"
      and cells: "\<forall>i < 2. (case to_datetime1 sample_library (Obj ([JStr ''2024-01-01'', JNull] ! i)) of
                     Stamp x \<Rightarrow> col ! i = Timestamp x
                   | Missing \<Rightarrow> col ! i = NaT
                   | Invalid \<Rightarrow> False)"
      by auto
    from cells [rule_format, of 0] cells [rule_format, of 1]
    have "col ! 0 = Timestamp 1704067200000000000" "col ! 1 = NaT"
      by (simp_all add: sample_library_def)
    with len have "col = [Timestamp 1704067200000000000, NaT]"
      by (cases col; cases "tl col") auto
    with df col show ?thesis by blast
  qed
  ultimately show ?thesis
    by (simp add: unparseable_date_response_def mixed_values_response_def)
qed

text \<open>
  Claim C8 as stated fails: a \<^verbatim>\<open>None\<close> in \<^verbatim>\<open>time\<close> does not abort the construction, and the
  returned table has \<^verbatim>\<open>NaT\<close>, not a calendar date, in that row.
\<close>

theorem null_date_is_NaT:
  "snd (process_weather_data sample_library null_date_response) =
     Return (Some
       [(''date'', [NaT]),
        (''temperature_2m_mean'', [Number NaN]),
        (''relative_humidity_2m_mean'', [Number NaN]),
        (''wind_speed_10m_mean'', [Number NaN]),
        (''cloud_cover_mean'', [Number NaN]),
        (''precipitation_sum'', [Number NaN]),
        (''shortwave_radiation_sum'', [Number NaN]),
        (''apparent_temperature_mean'', [Number NaN]),
        (''dew_point_2m_mean'', [Number NaN])])"
  by (simp add: null_date_response_def evaluation)

section \<open>Falsy payloads\<close>

text \<open>
  Claim C9. When the fetch decodes a falsy payload, such as an empty mapping or an empty
  list, \<^verbatim>\<open>fetch_and_process_forecast\<close> returns \<^verbatim>\<open>None\<close> and logs only its own two entries
  around those of the fetch: the transformer, whose first entry is always the received type,
  is not called.
\<close>

theorem falsy_payload_skips_transformer:
  "\<not> truthy v \<Longrightarrow>
     fetch_and_process_forecast lib (Decoded v) =
       ([(INFO, ExecutingFetchAndProcess), (INFO, FetchingFrom), (INFO, FetchedSuccessfully),
         (ERROR, FailedToFetch)],
        Return None)"
  by (simp add: fetch_and_process_forecast_def)

theorem falsy_payload_skips_transformer_witness:
  "\<not> truthy (JDict []) \<and>
   fetch_and_process_forecast sample_library (Decoded (JDict [])) =
       ([(INFO, ExecutingFetchAndProcess), (INFO, FetchingFrom), (INFO, FetchedSuccessfully),
         (ERROR, FailedToFetch)],
        Return None) \<and>
   \<not> truthy (JList []) \<and>
   fetch_and_process_forecast sample_library (Decoded (JList [])) =
       ([(INFO, ExecutingFetchAndProcess), (INFO, FetchingFrom), (INFO, FetchedSuccessfully),
         (ERROR, FailedToFetch)],
        Return None)"
  using falsy_payload_skips_transformer [of "JDict []" sample_library]
    falsy_payload_skips_transformer [of "JList []" sample_library]
  by simp

section \<open>The payload in the store\<close>

subsection \<open>Writes go to new objects\<close>

lemma length_setitem [simp]: "length (setitem a k v h) = length h"
  by (simp add: setitem_def split: option.splits obj.splits)

lemma length_append_item [simp]: "length (append_item a v h) = length h"
  by (simp add: append_item_def split: option.splits obj.splits)

lemma take_setitem: "m \<le> a \<Longrightarrow> take m (setitem a k v h) = take m h"
  by (simp add: setitem_def split: option.splits obj.splits)

lemma take_append_item: "m \<le> a \<Longrightarrow> take m (append_item a v h) = take m h"
  by (simp add: append_item_def split: option.splits obj.splits)

lemma store_missing_frame:
  "m \<le> p \<Longrightarrow> m \<le> length h \<Longrightarrow>
     take m (store_missing n p name h) = take m h \<and> length h \<le> length (store_missing n p name h)"
  by (simp add: store_missing_def alloc_def take_setitem)

lemma extract_variable_store_frame:
  assumes "m \<le> p" and "m \<le> c" and "m \<le> length h"
  shows "take m (fst (extract_variable_store lib daily_units daily_data n p c var h)) = take m h \<and>
         length h \<le> length (fst (extract_variable_store lib daily_units daily_data n p c var h))"
  using assms store_missing_frame [of m p "append_item c (VStr name) h" n name for name]
  by (auto simp: extract_variable_store_def Let_def take_setitem take_append_item
           split: option.splits obj.splits)

lemma extract_variables_store_frame:
  assumes "m \<le> p" and "m \<le> c" and "m \<le> length h"
  shows "take m (fst (extract_variables_store lib daily_units daily_data n p c vars h)) = take m h \<and>
         length h \<le> length (fst (extract_variables_store lib daily_units daily_data n p c vars h))"
  using assms(3)
proof (induction vars arbitrary: h)
  case Nil
  show ?case by simp
next
  case (Cons var vars)
  obtain h' r where step: "extract_variable_store lib daily_units daily_data n p c var h = (h', r)"
    by (cases "extract_variable_store lib daily_units daily_data n p c var h")
  from extract_variable_store_frame [OF assms(1,2) Cons.prems, of lib daily_units daily_data n var] step
  have h': "take m h' = take m h" "length h \<le> length h'" by simp_all
  show ?case
  proof (cases r)
    case None
    from h' Cons.prems have "m \<le> length h'" by simp
    from Cons.IH [OF this] h' show ?thesis by (simp add: step None)
  next
    case (Some e)
    with h' show ?thesis by (simp add: step)
  qed
qed

lemma store_prefix_unchanged:
  "take (length h) (fst (process_weather_data_store lib h data)) = h"
proof -
  have "take (length h) h' = h"
    if "extract_variables_store lib du dd n (length h) (Suc (length h)) vars (h @ [ob1, ob2]) = (h', r)"
    for du dd n vars ob1 ob2 h' r
    using extract_variables_store_frame [of "length h" "length h" "Suc (length h)" "h @ [ob1, ob2]"
        lib du dd n vars] that
    by simp
  then show ?thesis
    by (auto simp: process_weather_data_store_def alloc_def
             split: option.splits obj.splits sum.splits prod.splits)
qed

subsection \<open>Values behind references\<close>

lemma load_atom: "\<forall>b. v \<noteq> VRef b \<Longrightarrow> load m h v = load m' h' v"
  by (cases v) simp_all

lemma load_Suc_obj:
  "a < length h \<Longrightarrow> load (Suc m) h (VRef a) =
     (case h ! a of OList vs \<Rightarrow> JList (map (load m h) vs)
      | ODict kvs \<Rightarrow> JDict (map (\<lambda>(k, v). (k, load m h v)) kvs))"
  by simp

lemma load_obj_cong:
  assumes "a < length h" and "a < length h'" and "h' ! a = h ! a"
    and "\<And>v. v \<in> set (obj_vals (h ! a)) \<Longrightarrow> load m h' v = load m' h v"
  shows "load (Suc m) h' (VRef a) = load (Suc m') h (VRef a)"
proof (cases "h ! a")
  case (OList vs)
  with assms show ?thesis by simp
next
  case (ODict kvs)
  with assms(4) have "\<And>k v. (k, v) \<in> set kvs \<Longrightarrow> load m h' v = load m' h v"
    by force
  then have "map (\<lambda>(k, v). (k, load m h' v)) kvs = map (\<lambda>(k, v). (k, load m' h v)) kvs"
    by auto
  with ODict assms(1,2,3) show ?thesis by simp
qed

lemma load_old:
  assumes ord: "ordered h" and ext: "take (length h) h' = h"
  shows "refs_below a v \<Longrightarrow> a \<le> length h \<Longrightarrow> a \<le> m \<Longrightarrow> a \<le> m' \<Longrightarrow>
           load m h' v = load m' h v"
proof (induction a arbitrary: v m m' rule: less_induct)
  case (less a)
  show ?case
  proof (cases v)
    case (VRef b)
    with less.prems have b: "b < a" by simp
    with less.prems obtain k k' where m: "m = Suc k" "m' = Suc k'" and k: "b \<le> k" "b \<le> k'"
      by (cases m; cases m') auto
    have "length (take (length h) h') = length h"
      using ext by simp
    then have len: "length h \<le> length h'"
      by simp
    have bl: "b < length h" using b less.prems by simp
    have same: "h' ! b = h ! b"
      using ext bl by (metis nth_take)
    have "load (Suc k) h' (VRef b) = load (Suc k') h (VRef b)"
    proof (rule load_obj_cong)
      show "b < length h" by (rule bl)
      show "b < length h'" using bl len by simp
      show "h' ! b = h ! b" by (rule same)
      fix w assume "w \<in> set (obj_vals (h ! b))"
      with ord bl have "refs_below b w" by (auto simp: ordered_def)
      then show "load k h' w = load k' h w"
        using b bl k by (intro less.IH [of b]) simp_all
    qed
    then show ?thesis by (simp add: VRef m)
  qed (simp_all)
qed

lemma refs_below_mono: "refs_below a v \<Longrightarrow> a \<le> b \<Longrightarrow> refs_below b v"
  by (cases v) simp_all

lemma children_old:
  "ordered h \<Longrightarrow> a < length h \<Longrightarrow> w \<in> set (obj_vals (h ! a)) \<Longrightarrow> refs_below a w"
  by (simp add: ordered_def)

lemma load_extended:
  "ordered h \<Longrightarrow> take (length h) h' = h \<Longrightarrow> refs_below (length h) v \<Longrightarrow> length h \<le> m \<Longrightarrow>
     load m h' v = value_of h v"
  unfolding value_of_def by (rule load_old [where a = "length h"]) simp_all

lemma value_of_ref:
  assumes "ordered h" and "a < length h"
  shows "value_of h (VRef a) =
     (case h ! a of OList vs \<Rightarrow> JList (map (value_of h) vs)
      | ODict kvs \<Rightarrow> JDict (map (\<lambda>(k, v). (k, value_of h v)) kvs))"
proof -
  from assms(2) obtain k where k: "length h = Suc k" by (cases "length h") auto
  have child: "load k h w = value_of h w" if "w \<in> set (obj_vals (h ! a))" for w
    unfolding value_of_def
  proof (rule load_old [OF assms(1), where a = a])
    show "take (length h) h = h" by simp
    show "refs_below a w" using assms that by (rule children_old)
    show "a \<le> length h" "a \<le> k" "a \<le> length h" using assms(2) k by simp_all
  qed
  show ?thesis
  proof (cases "h ! a")
    case (OList vs)
    with child have "map (load k h) vs = map (value_of h) vs" by simp
    with OList assms(2) show ?thesis by (simp add: value_of_def k)
  next
    case (ODict kvs)
    with child have "\<And>x v. (x, v) \<in> set kvs \<Longrightarrow> load k h v = value_of h v" by force
    then have "map (\<lambda>(x, v). (x, load k h v)) kvs = map (\<lambda>(x, v). (x, value_of h v)) kvs"
      by auto
    with ODict assms(2) show ?thesis by (simp add: value_of_def k)
  qed
qed

lemma value_of_atoms [simp]:
  "value_of h VNull = JNull" "value_of h (VBool b) = JBool b" "value_of h (VInt i) = JInt i"
  "value_of h (VFloat f) = JFloat f" "value_of h (VStr s) = JStr s"
  by (simp_all add: value_of_def)

lemma deref_extended:
  "take (length h) h' = h \<Longrightarrow> refs_below (length h) v \<Longrightarrow> deref h' v = deref h v"
proof (cases v)
  case (VRef a)
  assume ext: "take (length h) h' = h" and "refs_below (length h) v"
  with VRef have a: "a < length h" by simp
  have "length (take (length h) h') = length h" using ext by simp
  then have "length h \<le> length h'" by simp
  moreover have "h' ! a = h ! a" using ext a by (metis nth_take)
  ultimately show ?thesis using a VRef by simp
qed simp_all

lemma value_of_list:
  "ordered h \<Longrightarrow> deref h v = Some (OList vs) \<Longrightarrow> value_of h v = JList (map (value_of h) vs)"
  by (cases v) (auto simp: value_of_ref split: if_splits)

lemma value_of_dict:
  "ordered h \<Longrightarrow> deref h v = Some (ODict kvs) \<Longrightarrow>
     value_of h v = JDict (map (\<lambda>(k, v). (k, value_of h v)) kvs)"
  by (cases v) (auto simp: value_of_ref split: if_splits)

lemma value_of_no_object:
  "deref h v = None \<Longrightarrow> refs_below (length h) v \<Longrightarrow>
     py_type (value_of h v) \<noteq> TList \<and> py_type (value_of h v) \<noteq> TDict"
  by (cases v) (auto split: if_splits)

lemma dict_children_old:
  assumes "ordered h" and "deref h v = Some (ODict kvs)" and "map_of kvs k = Some w"
  shows "refs_below (length h) w"
proof -
  from assms(2) obtain a where a: "v = VRef a" "a < length h" "h ! a = ODict kvs"
    by (cases v) (auto split: if_splits)
  from assms(3) have "(k, w) \<in> set kvs" by (rule map_of_SomeD)
  then have "w \<in> snd ` set kvs" by force
  then have "w \<in> set (obj_vals (h ! a))"
    using a(3) by simp
  with assms(1) a(2) have "refs_below a w" by (rule children_old)
  then show ?thesis using a(2) by (intro refs_below_mono [of a w "length h"]) simp_all
qed

lemma map_of_values:
  "map_of (map (\<lambda>(k, v). (k, f v)) kvs) k = map_option f (map_of kvs k)"
  by (induction kvs) auto

lemma py_len_value_of:
  "ordered h \<Longrightarrow> refs_below (length h) v \<Longrightarrow> py_len (value_of h v) = len_store h v"
  by (cases v) (auto simp: value_of_ref split: obj.splits)

lemma py_slice5_value_of:
  "ordered h \<Longrightarrow> refs_below (length h) v \<Longrightarrow>
     (case py_slice5 (value_of h v) of Inl e \<Rightarrow> Some e | Inr f \<Rightarrow> None) = slice5_store h v"
  by (cases v) (auto simp: value_of_ref split: obj.splits)

lemma truthy_value_of:
  "ordered h \<Longrightarrow> refs_below (length h) v \<Longrightarrow> truthy (value_of h v) = truthy_store h v"
  by (cases v) (auto simp: value_of_ref split: obj.splits)

lemma truthy_store_extended:
  "take (length h) h' = h \<Longrightarrow> refs_below (length h) v \<Longrightarrow> truthy_store h' v = truthy_store h v"
  using deref_extended [of h h' v] by (cases v) simp_all

subsection \<open>The transformer on the store computes what the transformer on values computes\<close>

lemma rep_preserved:
  assumes "rep h0 h p c v j" and "length h \<le> length h'"
    and "\<And>x. x < length h \<Longrightarrow> x \<noteq> p \<Longrightarrow> x \<noteq> c \<Longrightarrow> h' ! x = h ! x"
  shows "rep h0 h' p c v j"
  using assms unfolding rep_def by (elim disjE exE conjE) (simp, force)

lemma list_all2_update:
  assumes "list_all2 (\<lambda>kv kj. fst kv = fst kj \<and> R (snd kv) (snd kj)) xs ys" and "R v j"
  shows "list_all2 (\<lambda>kv kj. fst kv = fst kj \<and> R (snd kv) (snd kj))
           (AList.update k v xs) (AList.update k j ys)"
  using assms(1)
proof (induction rule: list_all2_induct)
  case Nil
  show ?case using assms(2) by simp
next
  case (Cons x xs y ys)
  then show ?case using assms(2) by auto
qed

lemma list_all2_rep_preserved:
  assumes "list_all2 (\<lambda>kv kj. fst kv = fst kj \<and> rep h0 h p c (snd kv) (snd kj)) pd ps"
    and "length h \<le> length h'"
    and "\<And>x. x < length h \<Longrightarrow> x \<noteq> p \<Longrightarrow> x \<noteq> c \<Longrightarrow> h' ! x = h ! x"
  shows "list_all2 (\<lambda>kv kj. fst kv = fst kj \<and> rep h0 h' p c (snd kv) (snd kj)) pd ps"
  using assms(1)
  by (rule list_all2_mono) (auto intro: rep_preserved [OF _ assms(2,3)])

lemma loop_inv_setitem:
  assumes inv: "loop_inv h0 p c h st"
    and r: "refs_below (length h0) x"
  shows "loop_inv h0 p c (setitem p name x (append_item c (VStr name) h))
           \<lparr>processed = AList.update name (value_of h0 x) (processed st),
            new_column_names = new_column_names st @ [name]\<rparr>"
proof -
  from inv obtain pd where
    ext: "take (length h0) h = h0" and p: "length h0 \<le> p" "p < length h"
    and c: "length h0 \<le> c" "c < length h" and pc: "p \<noteq> c"
    and names: "h ! c = OList (map VStr (new_column_names st))"
    and pd: "h ! p = ODict pd"
    and rel: "list_all2 (\<lambda>kv kj. fst kv = fst kj \<and> rep h0 h p c (snd kv) (snd kj)) pd (processed st)"
    unfolding loop_inv_def by blast
  let ?h1 = "h[c := OList (map VStr (new_column_names st) @ [VStr name])]"
  let ?h2 = "?h1[p := ODict (AList.update name x pd)]"
  have h1: "append_item c (VStr name) h = ?h1"
    using c names by (simp add: append_item_def)
  have h2: "setitem p name x ?h1 = ?h2"
    using p pc pd by (simp add: setitem_def)
  have rel': "list_all2 (\<lambda>kv kj. fst kv = fst kj \<and> rep h0 ?h2 p c (snd kv) (snd kj)) pd (processed st)"
    using rel by (rule list_all2_rep_preserved) simp_all
  have "rep h0 ?h2 p c x (value_of h0 x)"
    using r by (simp add: rep_def)
  with rel' have "list_all2 (\<lambda>kv kj. fst kv = fst kj \<and> rep h0 ?h2 p c (snd kv) (snd kj))
      (AList.update name x pd) (AList.update name (value_of h0 x) (processed st))"
    by (rule list_all2_update)
  moreover have "take (length h0) ?h2 = h0"
    using ext p c by (simp add: take_update_cancel)
  ultimately show ?thesis
    unfolding h1 h2 loop_inv_def using p c pc by simp
qed

lemma loop_inv_missing:
  assumes inv: "loop_inv h0 p c h st"
  shows "loop_inv h0 p c (store_missing n p name (append_item c (VStr name) h))
           \<lparr>processed = AList.update name (JList (replicate n JNull)) (processed st),
            new_column_names = new_column_names st @ [name]\<rparr>"
proof -
  from inv obtain pd where
    ext: "take (length h0) h = h0" and p: "length h0 \<le> p" "p < length h"
    and c: "length h0 \<le> c" "c < length h" and pc: "p \<noteq> c"
    and names: "h ! c = OList (map VStr (new_column_names st))"
    and pd: "h ! p = ODict pd"
    and rel: "list_all2 (\<lambda>kv kj. fst kv = fst kj \<and> rep h0 h p c (snd kv) (snd kj)) pd (processed st)"
    unfolding loop_inv_def by blast
  let ?h1 = "h[c := OList (map VStr (new_column_names st) @ [VStr name])]"
  let ?h2 = "?h1 @ [OList (replicate n VNull)]"
  let ?h3 = "?h2[p := ODict (AList.update name (VRef (length h)) pd)]"
  have h1: "append_item c (VStr name) h = ?h1"
    using c names by (simp add: append_item_def)
  have h3: "store_missing n p name ?h1 = ?h3"
    using p pc pd by (simp add: store_missing_def alloc_def setitem_def nth_append)
  have rel': "list_all2 (\<lambda>kv kj. fst kv = fst kj \<and> rep h0 ?h3 p c (snd kv) (snd kj)) pd (processed st)"
    using rel by (rule list_all2_rep_preserved) (simp_all add: nth_append)
  have "rep h0 ?h3 p c (VRef (length h)) (JList (replicate n JNull))"
    using p c by (auto simp: rep_def nth_append)
  with rel' have "list_all2 (\<lambda>kv kj. fst kv = fst kj \<and> rep h0 ?h3 p c (snd kv) (snd kj))
      (AList.update name (VRef (length h)) pd)
      (AList.update name (JList (replicate n JNull)) (processed st))"
    by (rule list_all2_update)
  moreover have "take (length h0) ?h3 = h0"
    using ext p c by (simp add: take_update_cancel)
  ultimately show ?thesis
    unfolding h1 h3 loop_inv_def using p c pc by (simp add: nth_append)
qed

lemma extract_variable_no_units:
  "py_type units \<noteq> TDict \<Longrightarrow> extract_variable lib units dd n var st = ([], Raise AttributeError)"
  by (cases units) (simp_all add: extract_variable_def)

lemma extract_variable_store_refines:
  assumes ord: "ordered h0" and inv: "loop_inv h0 p c h st"
    and du: "refs_below (length h0) du" and dv: "refs_below (length h0) dv"
    and items: "deref h0 dv = Some (ODict items)"
  shows "(\<exists>h' st'. extract_variable_store lib du dv n p c var h = (h', None) \<and>
            snd (extract_variable lib (value_of h0 du)
                   (map (\<lambda>(k, v). (k, value_of h0 v)) items) n var st) = Return st' \<and>
            loop_inv h0 p c h' st') \<or>
         (\<exists>h' e. extract_variable_store lib du dv n p c var h = (h', Some e) \<and>
            snd (extract_variable lib (value_of h0 du)
                   (map (\<lambda>(k, v). (k, value_of h0 v)) items) n var st) = Raise e)"
proof -
  let ?J = "value_of h0"
  let ?dd = "map (\<lambda>(k, v). (k, ?J v)) items"
  from inv have ext: "take (length h0) h = h0" and c: "length h0 \<le> c"
    unfolding loop_inv_def by simp_all
  have "length (take (length h0) h) = length h0" using ext by simp
  then have len: "length h0 \<le> length h" by simp
  have deref_du: "deref h du = deref h0 du"
    using ext du by (rule deref_extended)
  show ?thesis
  proof (cases "deref h0 du")
    case None
    then have "py_type (?J du) \<noteq> TDict"
      using du value_of_no_object by blast
    then show ?thesis
      using None deref_du by (simp add: extract_variable_no_units extract_variable_store_def)
  next
    case (Some ob)
    show ?thesis
    proof (cases ob)
      case (OList vs)
      with Some ord have "?J du = JList (map ?J vs)" by (simp add: value_of_list)
      then show ?thesis
        using Some OList deref_du
        by (simp add: extract_variable_no_units extract_variable_store_def)
    next
      case (ODict units)
      let ?u = "map (\<lambda>(k, v). (k, ?J v)) units"
      let ?unit = "case map_of units var of None \<Rightarrow> VNull | Some u \<Rightarrow> u"
      let ?name = "new_col_name lib ?u var"
      have Ju: "?J du = JDict ?u"
        using ord Some ODict by (simp add: value_of_dict)
      have unit_old: "refs_below (length h0) ?unit"
        using dict_children_old [OF ord, of du units var] Some ODict
        by (auto split: option.splits)
      have unit_val: "(case map_of ?u var of None \<Rightarrow> JNull | Some u \<Rightarrow> u) = ?J ?unit"
        by (simp add: map_of_values split: option.splits)
      have "truthy_store h ?unit = truthy (?J ?unit)"
        using truthy_store_extended [OF ext unit_old] truthy_value_of [OF ord unit_old] by simp
      moreover have "load (length h) h ?unit = ?J ?unit"
        using ord ext unit_old len by (rule load_extended)
      ultimately have name:
        "(if truthy_store h ?unit then var @ '' ('' @ py_str lib (load (length h) h ?unit) @ '')''
          else var) = ?name"
        by (simp add: new_col_name_def unit_val)
      let ?h1 = "append_item c (VStr ?name) h"
      have ext1: "take (length h0) ?h1 = h0"
        using ext c by (simp add: take_append_item)
      have deref1: "deref ?h1 v = deref h0 v" if "refs_below (length h0) v" for v
        using ext1 that by (rule deref_extended)
      have pure: "snd (extract_variable lib (?J du) ?dd n var st) =
          Return \<lparr>processed = AList.update ?name (JList (column_data ?dd n var)) (processed st),
                  new_column_names = new_column_names st @ [?name]\<rparr>"
        unfolding Ju by (rule extract_variable_units)
      have missing: ?thesis
        if "column_data ?dd n var = replicate n JNull"
          and "extract_variable_store lib du dv n p c var h = (store_missing n p ?name ?h1, None)"
        using loop_inv_missing [OF inv, of n ?name] that pure by simp
      show ?thesis
      proof (cases "map_of items var")
        case None
        then have "column_data ?dd n var = replicate n JNull"
          by (simp add: column_data_def map_of_values)
        moreover have "extract_variable_store lib du dv n p c var h = (store_missing n p ?name ?h1, None)"
          using None Some ODict deref_du name deref1 [OF dv] items
          by (simp add: extract_variable_store_def Let_def)
        ultimately show ?thesis by (rule missing)
      next
        case x: (Some x)
        have x_old: "refs_below (length h0) x"
          using ord items x by (rule dict_children_old)
        have lookup: "map_of ?dd var = Some (?J x)"
          by (simp add: map_of_values x)
        show ?thesis
        proof (cases "deref h0 x")
          case None
          then have "py_type (?J x) \<noteq> TList"
            using x_old value_of_no_object by blast
          then have "column_data ?dd n var = replicate n JNull"
            using lookup by (intro column_data_degraded) simp
          moreover have "extract_variable_store lib du dv n p c var h = (store_missing n p ?name ?h1, None)"
            using None x Some ODict deref_du name deref1 [OF dv] deref1 [OF x_old] items
            by (simp add: extract_variable_store_def Let_def)
          ultimately show ?thesis by (rule missing)
        next
          case xo: (Some xo)
          show ?thesis
          proof (cases xo)
            case (ODict kvs)
            with xo ord have "?J x = JDict (map (\<lambda>(k, v). (k, ?J v)) kvs)"
              by (simp add: value_of_dict)
            then have "column_data ?dd n var = replicate n JNull"
              using lookup by (intro column_data_degraded) simp
            moreover have "extract_variable_store lib du dv n p c var h = (store_missing n p ?name ?h1, None)"
              using xo ODict x Some \<open>ob = ODict units\<close> deref_du name deref1 [OF dv] deref1 [OF x_old] items
              by (simp add: extract_variable_store_def Let_def)
            ultimately show ?thesis by (rule missing)
          next
            case (OList xs)
            with xo ord have Jx: "?J x = JList (map ?J xs)"
              by (simp add: value_of_list)
            show ?thesis
            proof (cases "length xs = n")
              case False
              then have "column_data ?dd n var = replicate n JNull"
                using lookup Jx by (intro column_data_degraded) simp
              moreover have "extract_variable_store lib du dv n p c var h = (store_missing n p ?name ?h1, None)"
                using False xo OList x Some \<open>ob = ODict units\<close> deref_du name deref1 [OF dv] deref1 [OF x_old] items
                by (simp add: extract_variable_store_def Let_def)
              ultimately show ?thesis by (rule missing)
            next
              case True
              then have "JList (column_data ?dd n var) = ?J x"
                using lookup Jx by (simp add: column_data_def)
              moreover have "extract_variable_store lib du dv n p c var h = (setitem p ?name x ?h1, None)"
                using True xo OList x Some \<open>ob = ODict units\<close> deref_du name deref1 [OF dv] deref1 [OF x_old] items
                by (simp add: extract_variable_store_def Let_def)
              ultimately show ?thesis
                using loop_inv_setitem [OF inv x_old, of ?name] pure by simp
            qed
          qed
        qed
      qed
    qed
  qed
qed

lemma extract_variables_store_refines:
  assumes ord: "ordered h0"
    and du: "refs_below (length h0) du" and dv: "refs_below (length h0) dv"
    and items: "deref h0 dv = Some (ODict items)"
  shows "loop_inv h0 p c h st \<Longrightarrow>
         (\<exists>h' st'. extract_variables_store lib du dv n p c vars h = (h', None) \<and>
            snd (extract_variables lib (value_of h0 du)
                   (map (\<lambda>(k, v). (k, value_of h0 v)) items) n vars st) = Return st' \<and>
            loop_inv h0 p c h' st') \<or>
         (\<exists>h' e. extract_variables_store lib du dv n p c vars h = (h', Some e) \<and>
            snd (extract_variables lib (value_of h0 du)
                   (map (\<lambda>(k, v). (k, value_of h0 v)) items) n vars st) = Raise e)"
proof (induction vars arbitrary: h st)
  case Nil
  then show ?case by simp
next
  case (Cons var vars)
  let ?dd = "map (\<lambda>(k, v). (k, value_of h0 v)) items"
  obtain l r where pure: "extract_variable lib (value_of h0 du) ?dd n var st = (l, r)"
    by (cases "extract_variable lib (value_of h0 du) ?dd n var st")
  from extract_variable_store_refines [OF ord Cons.prems du dv items, of lib n var]
  consider (ok) h' st' where "extract_variable_store lib du dv n p c var h = (h', None)"
      "r = Return st'" "loop_inv h0 p c h' st'"
    | (raise) h' e where "extract_variable_store lib du dv n p c var h = (h', Some e)" "r = Raise e"
    using pure by auto
  then show ?case
  proof cases
    case ok
    obtain l' r' where rest: "extract_variables lib (value_of h0 du) ?dd n vars st' = (l', r')"
      by (cases "extract_variables lib (value_of h0 du) ?dd n vars st'")
    from Cons.IH [OF ok(3)] rest ok(1,2) pure show ?thesis by auto
  next
    case raise
    with pure show ?thesis by simp
  qed
qed

lemma loaded_state_inv:
  assumes ord: "ordered h0" and inv: "loop_inv h0 p c h st" and len: "length h0 + 2 \<le> length h"
  shows "loaded_state h p c = st"
proof -
  from inv obtain pd where
    ext: "take (length h0) h = h0" and p: "p < length h" and c: "c < length h"
    and names: "h ! c = OList (map VStr (new_column_names st))"
    and pd: "h ! p = ODict pd"
    and rel: "list_all2 (\<lambda>kv kj. fst kv = fst kj \<and> rep h0 h p c (snd kv) (snd kj)) pd (processed st)"
    unfolding loop_inv_def by blast
  from len obtain m where m: "length h = Suc m" "length h0 < m"
    by (cases "length h") auto
  have "load m h v = j" if "rep h0 h p c v j" for v j
    using that unfolding rep_def
  proof (elim disjE exE conjE)
    assume "refs_below (length h0) v" "j = value_of h0 v"
    then show ?thesis using load_extended [OF ord ext, of v m] m by simp
  next
    fix x k assume "v = VRef x" "x < length h" "h ! x = OList (replicate k VNull)"
      "j = JList (replicate k JNull)"
    moreover from m obtain m' where "m = Suc m'" by (cases m) auto
    ultimately show ?thesis by simp
  qed
  with rel have "list_all2 (\<lambda>kv kj. (fst kv, load m h (snd kv)) = kj) pd (processed st)"
    by (auto elim!: list_all2_mono)
  then have "map (\<lambda>(k, v). (k, load m h v)) pd = processed st"
    by (induction rule: list_all2_induct) auto
  then have "load (length h) h (VRef p) = JDict (processed st)"
    using p pd m by simp
  moreover have "map (\<lambda>v. case v of VStr s \<Rightarrow> s | _ \<Rightarrow> []) (map VStr (new_column_names st))
      = new_column_names st"
    by (simp add: comp_def)
  ultimately show ?thesis
    using c names by (simp add: loaded_state_def)
qed

lemma store_refines_pure:
  assumes ord: "ordered h" and data: "refs_below (length h) data"
  shows "snd (process_weather_data_store lib h data) =
         snd (process_weather_data lib (value_of h data))"
proof (cases "deref h data")
  case None
  then have "py_type (value_of h data) \<noteq> TDict"
    using data value_of_no_object by blast
  then show ?thesis
    using None by (simp add: process_weather_data_not_dict process_weather_data_store_def)
next
  case (Some ob)
  show ?thesis
  proof (cases ob)
    case (OList vs)
    with Some ord have "value_of h data = JList (map (value_of h) vs)"
      by (simp add: value_of_list)
    then show ?thesis
      using Some OList by (simp add: process_weather_data_not_dict process_weather_data_store_def)
  next
    case (ODict d)
    let ?J = "value_of h"
    let ?d = "map (\<lambda>(k, v). (k, ?J v)) d"
    have Jd: "?J data = JDict ?d"
      using ord Some ODict by (simp add: value_of_dict)
    have top: "deref h data = Some (ODict d)" using Some ODict by simp
    show ?thesis
    proof (cases "map_of d ''daily''")
      case None
      then show ?thesis
        using top by (simp add: Jd process_weather_data_store_def process_weather_data_def
            map_of_values)
    next
      case daily: (Some daily)
      show ?thesis
      proof (cases "map_of d ''daily_units''")
        case None
        then show ?thesis
          using top daily by (simp add: Jd process_weather_data_store_def process_weather_data_def
              map_of_values)
      next
        case units: (Some du)
        have daily_old: "refs_below (length h) daily"
          using ord top daily by (rule dict_children_old)
        have du_old: "refs_below (length h) du"
          using ord top units by (rule dict_children_old)
        show ?thesis
        proof (cases "deref h daily")
          case None
          then have "py_type (?J daily) \<noteq> TDict"
            using daily_old value_of_no_object by blast
          then show ?thesis
            using top daily units None
            by (cases "?J daily")
               (simp_all add: Jd process_weather_data_store_def process_weather_data_def map_of_values)
        next
          case dob: (Some dob)
          show ?thesis
          proof (cases dob)
            case (OList vs)
            with dob ord have "?J daily = JList (map ?J vs)" by (simp add: value_of_list)
            then show ?thesis
              using top daily units dob OList
              by (simp add: Jd process_weather_data_store_def process_weather_data_def map_of_values)
          next
            case (ODict items)
            let ?dd = "map (\<lambda>(k, v). (k, ?J v)) items"
            have items: "deref h daily = Some (ODict items)" using dob ODict by simp
            have Jdaily: "?J daily = JDict ?dd"
              using ord items by (simp add: value_of_dict)
            show ?thesis
            proof (cases "map_of items ''time''")
              case None
              then show ?thesis
                using top daily units items
                by (simp add: Jd Jdaily process_weather_data_store_def process_weather_data_def
                    map_of_values)
            next
              case dates: (Some dates)
              have dates_old: "refs_below (length h) dates"
                using ord items dates by (rule dict_children_old)
              have len: "py_len (?J dates) = len_store h dates"
                using ord dates_old by (rule py_len_value_of)
              have slice: "(case py_slice5 (?J dates) of Inl e \<Rightarrow> Some e | Inr f \<Rightarrow> None)
                  = slice5_store h dates"
                using ord dates_old by (rule py_slice5_value_of)
              show ?thesis
              proof (cases "len_store h dates")
                case (Inl e)
                then show ?thesis
                  using top daily units items dates len
                  by (simp add: Jd Jdaily process_weather_data_store_def process_weather_data_def
                      map_of_values)
              next
                case (Inr n)
                show ?thesis
                proof (cases "py_slice5 (?J dates)")
                  case (Inl e)
                  with slice have "slice5_store h dates = Some e" by simp
                  then show ?thesis
                    using top daily units items dates len Inr Inl
                    by (simp add: Jd Jdaily process_weather_data_store_def process_weather_data_def
                        map_of_values)
                next
                  case first: (Inr first)
                  with slice have sl: "slice5_store h dates = None" by simp
                  let ?p = "length h" and ?c = "Suc (length h)"
                  let ?h2 = "h @ [ODict [(''date'', dates)], OList [VStr ''date'']]"
                  let ?st0 = "\<lparr>processed = [(''date'', ?J dates)], new_column_names = [''date'']\<rparr>"
                  have inv0: "loop_inv h ?p ?c ?h2 ?st0"
                    using dates_old by (simp add: loop_inv_def nth_append rep_def)
                  obtain l r where pure:
                    "extract_variables lib (?J du) ?dd n VARIABLES ?st0 = (l, r)"
                    by (cases "extract_variables lib (?J du) ?dd n VARIABLES ?st0")
                  have pwd: "snd (process_weather_data lib (?J data)) =
                      (case r of Raise e \<Rightarrow> Raise e | Return st \<Rightarrow> Return (build_frame lib st))"
                    using daily units dates len Inr first pure
                    by (simp add: Jd Jdaily process_weather_data_def map_of_values Let_def
                        split: outcome.splits option.splits)
                  have store: "process_weather_data_store lib h data =
                      (case extract_variables_store lib du daily n ?p ?c VARIABLES ?h2 of
                         (h3, Some e) \<Rightarrow> (h3, Raise e)
                       | (h3, None) \<Rightarrow> (h3, Return (build_frame lib (loaded_state h3 ?p ?c))))"
                    using top daily units items dates Inr sl
                    by (simp add: process_weather_data_store_def alloc_def)
                  from extract_variables_store_refines [OF ord du_old daily_old items inv0, of lib n VARIABLES]
                  consider (ok) h3 st where
                      "extract_variables_store lib du daily n ?p ?c VARIABLES ?h2 = (h3, None)"
                      "r = Return st" "loop_inv h ?p ?c h3 st"
                    | (raise) h3 e where
                      "extract_variables_store lib du daily n ?p ?c VARIABLES ?h2 = (h3, Some e)"
                      "r = Raise e"
                    using pure by auto
                  then show ?thesis
                  proof cases
                    case ok
                    have "length ?h2 \<le> length h3"
                      using extract_variables_store_frame [of "length h" ?p ?c ?h2 lib du daily n VARIABLES]
                        ok(1) by simp
                    then have "length h + 2 \<le> length h3" by simp
                    with ord ok(3) have "loaded_state h3 ?p ?c = st"
                      by (rule loaded_state_inv)
                    then show ?thesis by (simp add: pwd store ok)
                  next
                    case raise
                    then show ?thesis by (simp add: pwd store)
                  qed
                qed
              qed
            qed
          qed
        qed
      qed
    qed
  qed
qed

lemma ordered_scenario_store: "ordered scenario_store"
  by (auto simp: ordered_def scenario_store_def less_Suc_eq)

lemma value_of_scenario_store: "value_of scenario_store (VRef 4) = scenario"
  by (simp add: value_of_def scenario_store_def scenario_def eval_nat_numeral)

text \<open>
  In the scenario \<^verbatim>\<open>processed\<close> shares the two lists of the payload (addresses 0 and 1) and
  refers to seven new lists.
\<close>

lemma scenario_store_aliases:
  "fst (process_weather_data_store sample_library scenario_store (VRef 4)) ! 5 =
     ODict [(''date'', VRef 0),
            (''temperature_2m_mean ('' @ [CHR 0xB0, CHR ''C''] @ '')'', VRef 1),
            (''relative_humidity_2m_mean'', VRef 7),
            (''wind_speed_10m_mean'', VRef 8),
            (''cloud_cover_mean'', VRef 9),
            (''precipitation_sum'', VRef 10),
            (''shortwave_radiation_sum'', VRef 11),
            (''apparent_temperature_mean'', VRef 12),
            (''dew_point_2m_mean'', VRef 13)]"
  by (simp add: process_weather_data_store_def scenario_store_def alloc_def VARIABLES_def
        extract_variable_store_def store_missing_def setitem_def append_item_def Let_def
        sample_library_def py_str_def nth_append)

subsection \<open>The payload is left as it was\<close>

text \<open>
  Claim C10. For every store and every payload in it, every object that exists when the
  transformer is called is the same when it returns or raises: the payload's mapping, its
  \<^verbatim>\<open>daily\<close> and \<^verbatim>\<open>daily_units\<close> mappings and every list in them. On a store as a decoder
  builds it, the value read from the payload after the call is the value read before it.
\<close>

theorem payload_unmodified:
  "take (length h) (fst (process_weather_data_store lib h data)) = h \<and>
   (ordered h \<and> refs_below (length h) data \<longrightarrow>
      value_of (fst (process_weather_data_store lib h data)) data = value_of h data)"
proof (intro conjI impI)
  show frame: "take (length h) (fst (process_weather_data_store lib h data)) = h"
    by (rule store_prefix_unchanged)
  assume a: "ordered h \<and> refs_below (length h) data"
  let ?h' = "fst (process_weather_data_store lib h data)"
  have "length (take (length h) ?h') = length h" using frame by simp
  then have "length h \<le> length ?h'" by simp
  with a frame show "value_of ?h' data = value_of h data"
    unfolding value_of_def [of ?h'] by (intro load_extended) simp_all
qed

theorem payload_unmodified_witness:
  "take 5 (fst (process_weather_data_store sample_library scenario_store (VRef 4))) = scenario_store \<and>
   value_of (fst (process_weather_data_store sample_library scenario_store (VRef 4))) (VRef 4) = scenario"
proof -
  have "refs_below (length scenario_store) (VRef 4)" "length scenario_store = 5"
    by (simp_all add: scenario_store_def)
  then show ?thesis
    using payload_unmodified [of scenario_store sample_library "VRef 4"]
      ordered_scenario_store value_of_scenario_store
    by simp
qed

end
